theory Spec2Isabelle
  imports Complex_Main
begin

section \<open>The ROI editor: numbers, data model and operations\<close>

subsection \<open>JavaScript numbers\<close>

text \<open>
  A JavaScript \<^verbatim>\<open>number\<close> is an IEEE 754 binary64 value: a finite double, one of the
  two infinities, or NaN. A finite double is modelled by the real number it denotes, and
  every arithmetic operation rounds its exact result to the nearest double, ties to the
  even significand, and overflows to an infinity, as the hardware does. A division by zero
  does not raise in JavaScript: it yields \<^verbatim>\<open>Infinity\<close>, \<^verbatim>\<open>-Infinity\<close> or
  \<^verbatim>\<open>NaN\<close>. The sign of zero is not modelled; the only divisors of the editor are a
  DOMRect's width and height and the zoom factor, none of which is a negative zero.
\<close>

datatype jsnum = Num real | Infinity | NegInfinity | NaN

text \<open>
  Rounding to binary64. The binade of \<open>x\<close> is the exponent \<open>e\<close> with
  \<open>2\<^sup>e \<le> \<bar>x\<bar> < 2\<^sup>e\<^sup>+\<^sup>1\<close>, but at least \<open>-1022\<close> (below it the doubles are subnormal and
  equally spaced); the doubles of a binade are the multiples of its unit in the last
  place, \<open>2\<^sup>e\<^sup>-\<^sup>5\<^sup>2\<close>. A result of magnitude \<open>2\<^sup>1\<^sup>0\<^sup>2\<^sup>4\<close> after rounding is an overflow.
\<close>

definition overflow_threshold :: real where
  "overflow_threshold = 2 ^ 1024"

definition binade :: "real \<Rightarrow> int" where
  "binade x = (if x = 0 then - 1022 else max \<lfloor>log 2 \<bar>x\<bar>\<rfloor> (- 1022))"

definition ulp :: "real \<Rightarrow> real" where
  "ulp x = 2 powr real_of_int (binade x - 52)"

definition round_half_even :: "real \<Rightarrow> int" where
  "round_half_even q =
     (let f = \<lfloor>q\<rfloor>; r = q - of_int f
      in if r < 1 / 2 then f else if 1 / 2 < r then f + 1 else if even f then f else f + 1)"

definition rnd :: "real \<Rightarrow> jsnum" where
  "rnd x =
     (let y = of_int (round_half_even (x / ulp x)) * ulp x
      in if overflow_threshold \<le> y then Infinity
         else if y \<le> - overflow_threshold then NegInfinity
         else Num y)"

fun jneg :: "jsnum \<Rightarrow> jsnum" where
  "jneg (Num a) = Num (- a)"
| "jneg Infinity = NegInfinity"
| "jneg NegInfinity = Infinity"
| "jneg NaN = NaN"

fun jadd :: "jsnum \<Rightarrow> jsnum \<Rightarrow> jsnum" where
  "jadd (Num a) (Num b) = rnd (a + b)"
| "jadd NaN _ = NaN"
| "jadd _ NaN = NaN"
| "jadd Infinity NegInfinity = NaN"
| "jadd NegInfinity Infinity = NaN"
| "jadd Infinity _ = Infinity"
| "jadd NegInfinity _ = NegInfinity"
| "jadd (Num a) Infinity = Infinity"
| "jadd (Num a) NegInfinity = NegInfinity"

definition jsub :: "jsnum \<Rightarrow> jsnum \<Rightarrow> jsnum" where
  "jsub a b = jadd a (jneg b)"

text \<open>The sign of a non-NaN number: \<open>-1\<close>, \<open>0\<close> or \<open>1\<close>.\<close>

fun jsign :: "jsnum \<Rightarrow> int" where
  "jsign (Num a) = (if a < 0 then - 1 else if a = 0 then 0 else 1)"
| "jsign Infinity = 1"
| "jsign NegInfinity = - 1"
| "jsign NaN = 0"

definition jmul :: "jsnum \<Rightarrow> jsnum \<Rightarrow> jsnum" where
  "jmul a b =
     (case (a, b) of
        (Num x, Num y) \<Rightarrow> rnd (x * y)
      | (NaN, _) \<Rightarrow> NaN
      | (_, NaN) \<Rightarrow> NaN
      | _ \<Rightarrow>
          if jsign a * jsign b = 0 then NaN
          else if jsign a * jsign b = 1 then Infinity else NegInfinity)"

text \<open>
  Division. A zero divisor (a positive zero) gives an infinity with the sign of the
  dividend, and \<open>0 / 0\<close> is NaN; a finite number divided by an infinity is zero; an
  infinity divided by an infinity is NaN.
\<close>

fun jdiv :: "jsnum \<Rightarrow> jsnum \<Rightarrow> jsnum" where
  "jdiv (Num a) (Num b) =
     (if b = 0 then (if a = 0 then NaN else if 0 < a then Infinity else NegInfinity)
      else rnd (a / b))"
| "jdiv NaN _ = NaN"
| "jdiv _ NaN = NaN"
| "jdiv (Num a) _ = Num 0"
| "jdiv Infinity (Num b) = (if b < 0 then NegInfinity else Infinity)"
| "jdiv NegInfinity (Num b) = (if b < 0 then Infinity else NegInfinity)"
| "jdiv _ _ = NaN"

text \<open>The comparison \<^verbatim>\<open>a > b\<close>: false whenever an operand is NaN.\<close>

fun jgt :: "jsnum \<Rightarrow> jsnum \<Rightarrow> bool" where
  "jgt (Num a) (Num b) = (b < a)"
| "jgt NaN _ = False"
| "jgt _ NaN = False"
| "jgt Infinity Infinity = False"
| "jgt Infinity _ = True"
| "jgt NegInfinity _ = False"
| "jgt (Num a) Infinity = False"
| "jgt (Num a) NegInfinity = True"

definition jlt :: "jsnum \<Rightarrow> jsnum \<Rightarrow> bool" where
  "jlt a b = jgt b a"

fun jabs :: "jsnum \<Rightarrow> jsnum" where
  "jabs (Num a) = Num \<bar>a\<bar>"
| "jabs Infinity = Infinity"
| "jabs NegInfinity = Infinity"
| "jabs NaN = NaN"

text \<open>\<^verbatim>\<open>Math.sqrt\<close>, the correctly rounded square root of the engines.\<close>

fun jsqrt :: "jsnum \<Rightarrow> jsnum" where
  "jsqrt (Num a) = (if a < 0 then NaN else rnd (sqrt a))"
| "jsqrt Infinity = Infinity"
| "jsqrt NegInfinity = NaN"
| "jsqrt NaN = NaN"

fun jfloor :: "jsnum \<Rightarrow> jsnum" where
  "jfloor (Num a) = Num (of_int \<lfloor>a\<rfloor>)"
| "jfloor Infinity = Infinity"
| "jfloor NegInfinity = NegInfinity"
| "jfloor NaN = NaN"

text \<open>\<^verbatim>\<open>Math.max\<close> and \<^verbatim>\<open>Math.min\<close> of two numbers: NaN when an argument is NaN.\<close>

definition jmax :: "jsnum \<Rightarrow> jsnum \<Rightarrow> jsnum" where
  "jmax a b = (if a = NaN \<or> b = NaN then NaN else if jgt a b then a else b)"

definition jmin :: "jsnum \<Rightarrow> jsnum \<Rightarrow> jsnum" where
  "jmin a b = (if a = NaN \<or> b = NaN then NaN else if jgt a b then b else a)"

text \<open>
  \<^verbatim>\<open>v || 0\<close> on an optional number: \<^verbatim>\<open>undefined\<close>, \<open>0\<close> and NaN are falsy and give
  \<open>0\<close>; every other number is kept.
\<close>

fun or_zero :: "jsnum option \<Rightarrow> jsnum" where
  "or_zero None = Num 0"
| "or_zero (Some NaN) = Num 0"
| "or_zero (Some v) = v"

subsection \<open>Data model\<close>

text \<open>A point \<^verbatim>\<open>{x, y}\<close> is the pair of its two coordinates.\<close>

type_synonym point = "jsnum \<times> jsnum"

datatype roi_type = Rect | Path | Circle

text \<open>
  \<^verbatim>\<open>ROIAnnotation.measurements\<close>: every field is optional. The field \<^verbatim>\<open>length\<close> is
  named \<open>length_mm\<close> here (its unit, from the declaration's comment).
\<close>

record measurements =
  length_mm :: "jsnum option"
  width :: "jsnum option"
  volume :: "jsnum option"
  huValue :: "jsnum option"
  adcValue :: "jsnum option"

text \<open>\<^verbatim>\<open>ROIAnnotation\<close>; the fields \<^verbatim>\<open>id\<close> and \<^verbatim>\<open>type\<close> are \<open>roi_id\<close> and \<open>roi_type\<close>.\<close>

record roi =
  roi_id :: string
  roi_type :: roi_type
  points :: "point list"
  label :: string
  measurements :: "measurements option"
  isConfirmed :: bool

datatype tool = Select | Pencil | RectTool

text \<open>The component's state: one field for each \<^verbatim>\<open>useState\<close> of \<^verbatim>\<open>ROIEditor\<close>.\<close>

record editor =
  rois :: "roi list"
  tool :: tool
  isDrawing :: bool
  currentPoints :: "point list"
  brightness :: jsnum
  contrast :: jsnum
  invert :: bool
  zoom :: jsnum
  pan :: point
  dragState :: "(string \<times> nat) option"
  isPanning :: bool
  panStart :: point

text \<open>
  The environment of a handler: the bounding box of the container as
  \<^verbatim>\<open>getBoundingClientRect\<close> reports it (\<open>None\<close> when \<^verbatim>\<open>containerRef.current\<close> is null),
  and the fields of the mouse event the handlers read. The DOM gives finite numbers.
\<close>

record dom_rect =
  rect_left :: real
  rect_top :: real
  rect_width :: real
  rect_height :: real

record mouse_event =
  clientX :: real
  clientY :: real
  button :: nat
  shiftKey :: bool

datatype error = TypeError

subsection \<open>View transform\<close>

definition resetView :: "editor \<Rightarrow> editor" where
  "resetView s =
     s\<lparr>brightness := Num 100, contrast := Num 100, invert := False, zoom := Num 1,
       pan := (Num 0, Num 0)\<rparr>"

definition getMousePos :: "dom_rect option \<Rightarrow> mouse_event \<Rightarrow> point" where
  "getMousePos container e =
     (case container of
        None \<Rightarrow> (Num 0, Num 0)
      | Some rect \<Rightarrow>
          (jmul (jdiv (jsub (Num (clientX e)) (Num (rect_left rect))) (Num (rect_width rect)))
             (Num 100),
           jmul (jdiv (jsub (Num (clientY e)) (Num (rect_top rect))) (Num (rect_height rect)))
             (Num 100)))"

text \<open>
  The transform layer, \<^verbatim>\<open>transform: scale(zoom) translate(pan.x px, pan.y px)\<close> with
  \<^verbatim>\<open>origin-top-left\<close> on a layer of the container's size: the overlay draws a stored
  point \<open>(u, v)\<close> (percentages of the layer) at the local position
  \<open>(u / 100 * width, v / 100 * height)\<close>; the translation and then the scaling apply to
  it, and the result is relative to the container's top-left corner (its one-pixel border
  is not modelled). The function gives the client (device) position at which the point
  appears; it is the browser's geometry, not a computation of the script, and is exact.
\<close>

definition transformLayer :: "dom_rect \<Rightarrow> real \<Rightarrow> real \<times> real \<Rightarrow> real \<times> real \<Rightarrow> real \<times> real" where
  "transformLayer rect z p uv =
     (rect_left rect + z * (fst uv / 100 * rect_width rect + fst p),
      rect_top rect + z * (snd uv / 100 * rect_height rect + snd p))"

definition zoomOut :: "editor \<Rightarrow> editor" where
  "zoomOut s = s\<lparr>zoom := jmax (Num 1) (jsub (zoom s) (Num 0.5))\<rparr>"

definition zoomIn :: "editor \<Rightarrow> editor" where
  "zoomIn s = s\<lparr>zoom := jmin (Num 4) (jadd (zoom s) (Num 0.5))\<rparr>"

subsection \<open>Geometry kernel\<close>

text \<open>
  \<^verbatim>\<open>calculateLongestDistance\<close>: the two nested loops over \<open>i\<close> and \<open>j = i + 1 ..\<close>, with the
  running maximum of the squared distance as the accumulator.
\<close>

function inner_loop :: "point list \<Rightarrow> nat \<Rightarrow> nat \<Rightarrow> jsnum \<Rightarrow> jsnum" where
  "inner_loop ps i j maxDistSq =
     (if j < length ps then
        (let dx = jsub (fst (ps ! i)) (fst (ps ! j));
             dy = jsub (snd (ps ! i)) (snd (ps ! j));
             dSq = jadd (jmul dx dx) (jmul dy dy)
         in inner_loop ps i (j + 1) (if jgt dSq maxDistSq then dSq else maxDistSq))
      else maxDistSq)"
  by pat_completeness auto
termination
  by (relation "measure (\<lambda>(ps, i, j, m). length ps - j)") auto

function outer_loop :: "point list \<Rightarrow> nat \<Rightarrow> jsnum \<Rightarrow> jsnum" where
  "outer_loop ps i maxDistSq =
     (if i < length ps then outer_loop ps (i + 1) (inner_loop ps i (i + 1) maxDistSq)
      else maxDistSq)"
  by pat_completeness auto
termination
  by (relation "measure (\<lambda>(ps, i, m). length ps - i)") auto

declare inner_loop.simps [simp del] outer_loop.simps [simp del]

definition calculateLongestDistance :: "point list \<Rightarrow> jsnum" where
  "calculateLongestDistance ps =
     (let maxDistSq = outer_loop ps 0 (Num 0);
          pixelDist = jsqrt maxDistSq
      in jfloor (jmul pixelDist (Num 3.5)))"

subsection \<open>Interaction state machine\<close>

text \<open>
  The vertex hit test of \<^verbatim>\<open>handleMouseDown\<close>: ROIs in list order, then point indices
  in increasing order; the first vertex within the threshold on both axes wins.
\<close>

function hit_points :: "point list \<Rightarrow> nat \<Rightarrow> jsnum \<Rightarrow> jsnum \<Rightarrow> jsnum \<Rightarrow> nat option" where
  "hit_points ps i x y threshold =
     (if i < length ps then
        (let p = ps ! i
         in if jlt (jabs (jsub (fst p) x)) threshold \<and> jlt (jabs (jsub (snd p) y)) threshold
            then Some i
            else hit_points ps (i + 1) x y threshold)
      else None)"
  by pat_completeness auto
termination
  by (relation "measure (\<lambda>(ps, i, x, y, t). length ps - i)") auto

declare hit_points.simps [simp del]

fun hit_rois :: "roi list \<Rightarrow> jsnum \<Rightarrow> jsnum \<Rightarrow> jsnum \<Rightarrow> (string \<times> nat) option" where
  "hit_rois [] x y threshold = None"
| "hit_rois (r # rs) x y threshold =
     (case hit_points (points r) 0 x y threshold of
        Some i \<Rightarrow> Some (roi_id r, i)
      | None \<Rightarrow> hit_rois rs x y threshold)"

definition handleMouseDown :: "dom_rect option \<Rightarrow> mouse_event \<Rightarrow> editor \<Rightarrow> editor" where
  "handleMouseDown container e s =
     (if button e = 1 \<or> (tool s = Select \<and> shiftKey e) then
        s\<lparr>isPanning := True,
          panStart := (jsub (Num (clientX e)) (fst (pan s)), jsub (Num (clientY e)) (snd (pan s)))\<rparr>
      else
        (let xy = getMousePos container e
         in if tool s = Select then
              (let threshold = jdiv (Num 3) (zoom s)
               in case hit_rois (rois s) (fst xy) (snd xy) threshold of
                    Some d \<Rightarrow> s\<lparr>dragState := Some d\<rparr>
                  | None \<Rightarrow> s)
            else s\<lparr>isDrawing := True, currentPoints := [xy]\<rparr>))"

text \<open>
  \<^verbatim>\<open>newPoints[i] = v\<close> on a copy of the array: inside the array the element is replaced;
  at index \<open>length\<close> the array grows by one; beyond it the array would get holes, and
  \<^verbatim>\<open>calculateLongestDistance\<close>, which reads every index below the new length, then reads
  \<^verbatim>\<open>.x\<close> of \<^verbatim>\<open>undefined\<close>: a TypeError. That case is \<open>None\<close>.
\<close>

definition assign_index :: "'a list \<Rightarrow> nat \<Rightarrow> 'a \<Rightarrow> 'a list option" where
  "assign_index xs i v =
     (if i < length xs then Some (xs[i := v])
      else if i = length xs then Some (xs @ [v])
      else None)"

text \<open>\<^verbatim>\<open>{ ...r.measurements, length }\<close>: a missing \<^verbatim>\<open>measurements\<close> spreads to nothing.\<close>

definition with_length :: "measurements option \<Rightarrow> jsnum \<Rightarrow> measurements" where
  "with_length m len =
     (case m of
        None \<Rightarrow> \<lparr>length_mm = Some len, width = None, volume = None,
                 huValue = None, adcValue = None\<rparr>
      | Some m' \<Rightarrow> m'\<lparr>length_mm := Some len\<rparr>)"

text \<open>The callback given to \<^verbatim>\<open>prev.map\<close> while a vertex is dragged.\<close>

definition drag_roi :: "string \<Rightarrow> nat \<Rightarrow> point \<Rightarrow> roi \<Rightarrow> error + roi" where
  "drag_roi roiId pointIndex xy r =
     (if roi_id r = roiId then
        (case assign_index (points r) pointIndex xy of
           None \<Rightarrow> Inl TypeError
         | Some newPoints \<Rightarrow>
             (let len = calculateLongestDistance newPoints
              in Inr (r\<lparr>points := newPoints, isConfirmed := True,
                        measurements := Some (with_length (measurements r) len)\<rparr>)))
      else Inr r)"

text \<open>\<^verbatim>\<open>Array.prototype.map\<close> with a callback that may throw: the first throw ends it.\<close>

fun map_result :: "('a \<Rightarrow> error + 'b) \<Rightarrow> 'a list \<Rightarrow> error + 'b list" where
  "map_result f [] = Inr []"
| "map_result f (x # xs) =
     (case f x of
        Inl err \<Rightarrow> Inl err
      | Inr y \<Rightarrow> (case map_result f xs of Inl err \<Rightarrow> Inl err | Inr ys \<Rightarrow> Inr (y # ys)))"

text \<open>
  \<^verbatim>\<open>handleMouseMove\<close>. With the rect tool and an empty \<^verbatim>\<open>currentPoints\<close> the new list
  would hold \<^verbatim>\<open>undefined\<close> at index 0, which the rect preview of the render that
  follows dereferences: a TypeError.
\<close>

definition handleMouseMove :: "dom_rect option \<Rightarrow> mouse_event \<Rightarrow> editor \<Rightarrow> error + editor" where
  "handleMouseMove container e s =
     (if isPanning s then
        Inr (s\<lparr>pan := (jsub (Num (clientX e)) (fst (panStart s)),
                        jsub (Num (clientY e)) (snd (panStart s)))\<rparr>)
      else
        (let xy = getMousePos container e
         in case dragState s of
              Some (roiId, pointIndex) \<Rightarrow>
                (case map_result (drag_roi roiId pointIndex xy) (rois s) of
                   Inl err \<Rightarrow> Inl err
                 | Inr rs \<Rightarrow> Inr (s\<lparr>rois := rs\<rparr>))
            | None \<Rightarrow>
                if \<not> isDrawing s then Inr s
                else if tool s = Pencil then Inr (s\<lparr>currentPoints := currentPoints s @ [xy]\<rparr>)
                else if tool s = RectTool then
                  (case currentPoints s of
                     [] \<Rightarrow> Inl TypeError
                   | start # _ \<Rightarrow> Inr (s\<lparr>currentPoints := [start, xy]\<rparr>))
                else Inr s))"

text \<open>The rect tool's expansion of the first and the last accumulated point.\<close>

definition finalPoints :: "editor \<Rightarrow> point list" where
  "finalPoints s =
     (if tool s = RectTool \<and> 2 \<le> length (currentPoints s) then
        (let p1 = currentPoints s ! 0;
             p2 = currentPoints s ! (length (currentPoints s) - 1)
         in [(fst p1, snd p1), (fst p2, snd p1), (fst p2, snd p2), (fst p1, snd p2)])
      else currentPoints s)"

text \<open>
  \<^verbatim>\<open>handleMouseUp\<close>. Its two calls of \<^verbatim>\<open>Math.random\<close> are inputs of the model:
  \<open>idDraw\<close> is the string \<^verbatim>\<open>Math.random().toString(36).substr(2, 9)\<close> of the first draw,
  \<open>huDraw\<close> the second draw, a number in \<open>[0, 1)\<close>.
\<close>

definition newROI :: "string \<Rightarrow> real \<Rightarrow> point list \<Rightarrow> roi" where
  "newROI idDraw huDraw ps =
     \<lparr>roi_id = idDraw, roi_type = Path, points = ps, label = ''Doctor ROI'',
      measurements = Some \<lparr>length_mm = Some (calculateLongestDistance ps), width = None,
        volume = None, huValue = Some (jadd (jfloor (jmul (Num huDraw) (Num 60))) (Num 30)),
        adcValue = None\<rparr>,
      isConfirmed = True\<rparr>"

definition handleMouseUp :: "string \<Rightarrow> real \<Rightarrow> editor \<Rightarrow> editor" where
  "handleMouseUp idDraw huDraw s =
     (if isPanning s then s\<lparr>isPanning := False\<rparr>
      else if dragState s \<noteq> None then s\<lparr>dragState := None\<rparr>
      else if \<not> isDrawing s then s
      else if length (finalPoints s) < 2 then s\<lparr>isDrawing := False\<rparr>
      else s\<lparr>isDrawing := False,
             rois := rois s @ [newROI idDraw huDraw (finalPoints s)],
             currentPoints := [],
             tool := Select\<rparr>)"

subsection \<open>Annotation store and measurement engine\<close>

definition deleteROI :: "string \<Rightarrow> editor \<Rightarrow> editor" where
  "deleteROI i s = s\<lparr>rois := filter (\<lambda>r. roi_id r \<noteq> i) (rois s)\<rparr>"

text \<open>\<^verbatim>\<open>r.measurements?.length\<close>.\<close>

definition roi_length :: "roi \<Rightarrow> jsnum option" where
  "roi_length r = (case measurements r of None \<Rightarrow> None | Some m \<Rightarrow> length_mm m)"

definition totalTumorBurden :: "roi list \<Rightarrow> jsnum" where
  "totalTumorBurden rs = foldl (\<lambda>acc r. jadd acc (or_zero (roi_length r))) (Num 0) rs"

subsection \<open>Events and runs of the editor\<close>

text \<open>
  Everything that changes the component's state: the three pointer handlers on the
  canvas, the toolbar (tool buttons, sliders, invert, zoom, reset) and the delete button
  of the list. In a run every event is handled on the state the previous event left, that
  is, the component has rendered again between two events.
\<close>

datatype event =
    MouseDown "dom_rect option" mouse_event
  | MouseMove "dom_rect option" mouse_event
  | MouseUp string real
  | SetTool tool
  | SetBrightness jsnum
  | SetContrast jsnum
  | ToggleInvert
  | ZoomOut
  | ZoomIn
  | ResetView
  | DeleteROI string

fun step :: "event \<Rightarrow> editor \<Rightarrow> error + editor" where
  "step (MouseDown c e) s = Inr (handleMouseDown c e s)"
| "step (MouseMove c e) s = handleMouseMove c e s"
| "step (MouseUp idDraw huDraw) s = Inr (handleMouseUp idDraw huDraw s)"
| "step (SetTool t) s = Inr (s\<lparr>tool := t\<rparr>)"
| "step (SetBrightness b) s = Inr (s\<lparr>brightness := b\<rparr>)"
| "step (SetContrast c) s = Inr (s\<lparr>contrast := c\<rparr>)"
| "step ToggleInvert s = Inr (s\<lparr>invert := \<not> invert s\<rparr>)"
| "step ZoomOut s = Inr (zoomOut s)"
| "step ZoomIn s = Inr (zoomIn s)"
| "step ResetView s = Inr (resetView s)"
| "step (DeleteROI i) s = Inr (deleteROI i s)"

fun run :: "event list \<Rightarrow> editor \<Rightarrow> error + editor" where
  "run [] s = Inr s"
| "run (ev # evs) s = (case step ev s of Inl err \<Rightarrow> Inl err | Inr s' \<Rightarrow> run evs s')"

text \<open>
  An event targets the id \<open>i\<close> when it is a pointer move in the dragging state whose drag
  state names \<open>i\<close>, or the deletion of \<open>i\<close>.
\<close>

fun touches :: "string \<Rightarrow> event \<Rightarrow> editor \<Rightarrow> bool" where
  "touches i (MouseMove c e) s =
     (case dragState s of None \<Rightarrow> False | Some (roiId, pointIndex) \<Rightarrow> roiId = i \<and> \<not> isPanning s)"
| "touches i (DeleteROI j) s = (i = j)"
| "touches i _ s = False"

fun never_touched :: "string \<Rightarrow> event list \<Rightarrow> editor \<Rightarrow> bool" where
  "never_touched i [] s = True"
| "never_touched i (ev # evs) s =
     (\<not> touches i ev s \<and>
      (case step ev s of Inl err \<Rightarrow> True | Inr s' \<Rightarrow> never_touched i evs s'))"

text \<open>The state of a freshly mounted editor with the given initial ROIs.\<close>

definition initial :: "roi list \<Rightarrow> editor" where
  "initial rs =
     \<lparr>rois = rs, tool = Select, isDrawing = False, currentPoints = [],
      brightness = Num 100, contrast = Num 100, invert = False, zoom = Num 1,
      pan = (Num 0, Num 0), dragState = None, isPanning = False, panStart = (Num 0, Num 0)\<rparr>"

subsection \<open>Notions used to state the properties\<close>

text \<open>
  The squared distance of two points as the loop body computes it, and the distance
  \<^verbatim>\<open>Math.sqrt\<close> makes of it: both in double arithmetic.
\<close>

definition pairDistSq :: "point \<Rightarrow> point \<Rightarrow> jsnum" where
  "pairDistSq p q =
     (let dx = jsub (fst p) (fst q); dy = jsub (snd p) (snd q)
      in jadd (jmul dx dx) (jmul dy dy))"

text \<open>The index pairs \<open>(a, b)\<close> with \<open>i \<le> a < b < n\<close>: what the loops visit from row \<open>i\<close> on.\<close>

definition pairs_from :: "nat \<Rightarrow> nat \<Rightarrow> (nat \<times> nat) set" where
  "pairs_from i n = {(a, b). i \<le> a \<and> a < b \<and> b < n}"

text \<open>
  \<open>M\<close> is the greatest of the numbers \<open>S\<close>: it is one of them, it is not NaN, and none of
  them compares greater.
\<close>

definition greatest_of :: "jsnum \<Rightarrow> jsnum set \<Rightarrow> bool" where
  "greatest_of M S = (M \<in> S \<and> M \<noteq> NaN \<and> (\<forall>d\<in>S. \<not> jgt d M))"

text \<open>
  The orientation of a closed polygon with finite vertices by the shoelace sum, in exact
  arithmetic (NaN for a polygon with a vertex that is not finite). On the screen the y
  axis points down, so a positive sum is a clockwise polygon as the operator sees it.
\<close>

fun finite_num :: "jsnum \<Rightarrow> bool" where
  "finite_num (Num a) = True"
| "finite_num _ = False"

fun real_of :: "jsnum \<Rightarrow> real" where
  "real_of (Num a) = a"
| "real_of _ = 0"

definition shoelace :: "point list \<Rightarrow> jsnum" where
  "shoelace ps =
     (if list_all (\<lambda>p. finite_num (fst p) \<and> finite_num (snd p)) ps then
        Num (\<Sum>(p, q) \<leftarrow> zip ps (rotate1 ps).
               real_of (fst p) * real_of (snd q) - real_of (fst q) * real_of (snd p))
      else NaN)"

definition clockwise :: "point list \<Rightarrow> bool" where
  "clockwise ps = jgt (shoelace ps) (Num 0)"



subsection \<open>Sample data of the examples\<close>

text \<open>A left-button pointer event at a client position, without modifier keys.\<close>

definition pointer_at :: "real \<times> real \<Rightarrow> mouse_event" where
  "pointer_at d = \<lparr>clientX = fst d, clientY = snd d, button = 0, shiftKey = False\<rparr>"

text \<open>
  A container of 100 by 100 pixels at the origin, so that at the identity view client
  coordinates and percentages coincide up to rounding; and one of 800 by 600 pixels.
\<close>

definition box :: dom_rect where
  "box = \<lparr>rect_left = 0, rect_top = 0, rect_width = 100, rect_height = 100\<rparr>"

definition canvas :: dom_rect where
  "canvas = \<lparr>rect_left = 0, rect_top = 0, rect_width = 800, rect_height = 600\<rparr>"

text \<open>A proposed, unconfirmed ROI with a given id and length, as the editor may be given initially.\<close>

definition measured :: "string \<Rightarrow> real \<Rightarrow> roi" where
  "measured i v =
     \<lparr>roi_id = i, roi_type = Rect, points = [(Num 0, Num 0), (Num 1, Num 1)], label = ''Lesion'',
      measurements = Some \<lparr>length_mm = Some (Num v), width = None, volume = None,
        huValue = None, adcValue = None\<rparr>,
      isConfirmed = False\<rparr>"

text \<open>A proposed, unconfirmed ROI with a given id and given vertices, without measurements.\<close>

definition proposal :: "string \<Rightarrow> point list \<Rightarrow> roi" where
  "proposal i ps =
     \<lparr>roi_id = i, roi_type = Rect, points = ps, label = ''Lesion'', measurements = None,
      isConfirmed = False\<rparr>"

text \<open>
  Three proposals: \<open>lesion_a\<close> and \<open>lesion_b\<close> with ids of their own, and \<open>lesion_a2\<close>,
  which lies where \<open>lesion_b\<close> does and carries the id of \<open>lesion_a\<close>.
\<close>

definition lesion_a :: roi where
  "lesion_a = proposal ''a'' [(Num 0, Num 0), (Num 25, Num 0)]"

definition lesion_b :: roi where
  "lesion_b = proposal ''b'' [(Num 60, Num 20), (Num 75, Num 75)]"

definition lesion_a2 :: roi where
  "lesion_a2 = proposal ''a'' [(Num 60, Num 20), (Num 75, Num 75)]"

text \<open>
  A proposal of three vertices and one of a single vertex that carries the same id.
\<close>

definition lesion_c :: roi where
  "lesion_c = proposal ''c'' [(Num 0, Num 0), (Num 50, Num 0), (Num 25, Num 0)]"

definition lesion_c1 :: roi where
  "lesion_c1 = proposal ''c'' [(Num 60, Num 20)]"

text \<open>
  A session on an editor with two proposals: the second vertex of \<open>lesion_a\<close> is grabbed
  at \<open>(25, 0)\<close>, dragged to \<open>(0, 100)\<close> and released, the view is zoomed and \<open>lesion_a\<close> is
  deleted.
\<close>

definition demo_events :: "event list" where
  "demo_events =
     [MouseDown (Some box) (pointer_at (25, 0)), MouseMove (Some box) (pointer_at (0, 100)),
      MouseUp ''k3x9'' 0.5, ZoomIn, DeleteROI ''a'']"

text \<open>
  The ROI that a drag of vertex \<open>i\<close> to \<open>xy\<close> makes of \<open>r\<close>, with the length measured.
\<close>

definition dragged :: "roi \<Rightarrow> nat \<Rightarrow> point \<Rightarrow> jsnum \<Rightarrow> roi" where
  "dragged r i xy len =
     r\<lparr>points := (points r)[i := xy], isConfirmed := True,
       measurements := Some (with_length (measurements r) len)\<rparr>"

text \<open>An editor without ROIs in the middle of a draw gesture.\<close>

definition drawing :: "tool \<Rightarrow> point list \<Rightarrow> editor" where
  "drawing t ps = (initial [])\<lparr>tool := t, isDrawing := True, currentPoints := ps\<rparr>"

text \<open>
  Two pencil gestures in a row for which \<^verbatim>\<open>Math.random\<close> returns \<open>0.5\<close> both times
  (\<^verbatim>\<open>(0.5).toString(36)\<close> is \<^verbatim>\<open>"0.i"\<close>, so the id is \<^verbatim>\<open>"i"\<close>): the state in which the
  second gesture is about to be released.
\<close>

definition second_gesture :: editor where
  "second_gesture =
     (handleMouseUp ''i'' 0.5 (drawing Pencil [(Num 10, Num 10), (Num 20, Num 20)]))
       \<lparr>tool := Pencil, isDrawing := True, currentPoints := [(Num 30, Num 30), (Num 40, Num 40)]\<rparr>"

section \<open>Rounding to binary64\<close>

subsection \<open>Representable numbers are not changed\<close>

lemma round_half_even_of_int: "round_half_even (of_int n) = n"
  by (simp add: round_half_even_def)

lemma round_half_even_eqI:
  assumes "of_int n - 1 / 2 < q" "q < of_int n + 1 / 2"
  shows "round_half_even q = n"
proof (cases "of_int n \<le> q")
  case True
  with assms(2) have "\<lfloor>q\<rfloor> = n" by (simp add: floor_eq_iff)
  with assms(2) show ?thesis by (simp add: round_half_even_def Let_def)
next
  case False
  with assms(1) have "\<lfloor>q\<rfloor> = n - 1" by (simp add: floor_eq_iff)
  with assms(1) show ?thesis by (simp add: round_half_even_def Let_def)
qed

lemma ulp_pos: "0 < ulp x"
  by (simp add: ulp_def)

lemma rnd_exactI:
  assumes "x / ulp x = of_int n" "\<bar>x\<bar> < overflow_threshold"
  shows "rnd x = Num x"
proof -
  have "of_int n * ulp x = x" using assms(1) ulp_pos [of x] by (simp add: field_simps)
  then show ?thesis using assms by (auto simp: rnd_def round_half_even_of_int)
qed

lemma binade_bounds:
  assumes "x \<noteq> 0" "2 powr real_of_int a \<le> \<bar>x\<bar>" "\<bar>x\<bar> < 2 powr real_of_int (b + 1)" "- 1022 \<le> a"
  shows "a \<le> binade x \<and> binade x \<le> b"
proof -
  have pos: "0 < \<bar>x\<bar>" using assms(1) by simp
  have "real_of_int a \<le> log 2 \<bar>x\<bar>" using assms(2) pos by (simp add: le_log_iff)
  then have 1: "a \<le> \<lfloor>log 2 \<bar>x\<bar>\<rfloor>" by (simp add: le_floor_iff)
  have "log 2 \<bar>x\<bar> < real_of_int (b + 1)" using assms(3) pos by (simp add: log_less_iff)
  then have "\<lfloor>log 2 \<bar>x\<bar>\<rfloor> < b + 1" by (subst floor_less_iff)
  then have 2: "\<lfloor>log 2 \<bar>x\<bar>\<rfloor> \<le> b" by simp
  show ?thesis using 1 2 assms(1,4) by (simp add: binade_def)
qed

lemma threshold_gt: "2 ^ 53 < overflow_threshold"
  unfolding overflow_threshold_def by (rule power_strict_increasing) simp_all

lemma rnd_dyadic:
  assumes m: "\<bar>m\<bar> < 2 ^ 53" and k: "k \<le> 1022"
  shows "rnd (of_int m / 2 ^ k) = Num (of_int m / 2 ^ k)"
proof (cases "m = 0")
  case True
  then show ?thesis using rnd_exactI [of 0 0] threshold_gt by simp
next
  case False
  let ?x = "real_of_int m / 2 ^ k"
  have x0: "?x \<noteq> 0" using False by simp
  have absx: "\<bar>?x\<bar> = real_of_int \<bar>m\<bar> / 2 ^ k" by (simp add: abs_divide)
  have m1: "1 \<le> real_of_int \<bar>m\<bar>" using False by linarith
  have lo: "2 powr real_of_int (- int k) \<le> \<bar>?x\<bar>"
  proof -
    have "2 powr real_of_int (- int k) = 1 / 2 ^ k"
      by (simp add: powr_minus powr_realpow field_simps)
    also have "\<dots> \<le> real_of_int \<bar>m\<bar> / 2 ^ k" using m1 by (simp add: divide_right_mono)
    finally show ?thesis by (simp only: absx)
  qed
  have hi: "\<bar>?x\<bar> < 2 powr real_of_int ((52 - int k) + 1)"
  proof -
    have "real_of_int \<bar>m\<bar> < 2 ^ 53" using m by (metis of_int_less_numeral_power_cancel_iff)
    then have "real_of_int \<bar>m\<bar> / 2 ^ k < 2 ^ 53 / 2 ^ k" by (simp add: divide_strict_right_mono)
    also have "(2::real) ^ 53 / 2 ^ k = 2 powr real_of_int ((52 - int k) + 1)"
    proof -
      have "2 powr real_of_int ((52 - int k) + 1) = 2 powr (53 - real k)" by simp
      also have "\<dots> = 2 powr 53 / 2 powr real k" by (simp add: powr_diff)
      also have "\<dots> = (2::real) ^ 53 / 2 ^ k"
        by (simp add: powr_realpow flip: powr_numeral)
      finally show ?thesis by simp
    qed
    finally show ?thesis by (simp only: absx)
  qed
  from binade_bounds [OF x0 lo hi] k
  have b: "- int k \<le> binade ?x" "binade ?x \<le> 52 - int k" by simp_all
  define j where "j = nat (52 - int k - binade ?x)"
  have j: "int j = 52 - int k - binade ?x" using b by (simp add: j_def)
  have "ulp ?x = 2 powr real_of_int (binade ?x - 52)" by (simp add: ulp_def)
  also have "binade ?x - 52 = - int k - int j" using j by simp
  also have "2 powr real_of_int (- int k - int j) = 1 / (2 ^ k * 2 ^ j)"
    by (simp add: powr_diff powr_minus powr_realpow field_simps)
  finally have u: "ulp ?x = 1 / (2 ^ k * 2 ^ j)" .
  have q: "?x / ulp ?x = of_int (m * 2 ^ j)" by (simp add: u)
  have "\<bar>?x\<bar> \<le> real_of_int \<bar>m\<bar>"
    unfolding absx using m1 by (simp add: divide_le_eq_1 field_simps mult_le_cancel_left1)
  also have "\<dots> < 2 ^ 53" using m by (metis of_int_less_numeral_power_cancel_iff)
  finally have "\<bar>?x\<bar> < overflow_threshold" using threshold_gt by simp
  from rnd_exactI [OF q this] show ?thesis .
qed

lemma rnd_of_int: "\<bar>n\<bar> < 2 ^ 53 \<Longrightarrow> rnd (of_int n) = Num (of_int n)"
  using rnd_dyadic [of n 0] by simp


lemma rnd_0 [simp]: "rnd 0 = Num 0"
  using rnd_of_int [of 0] by simp

lemma rnd_1 [simp]: "rnd 1 = Num 1"
  using rnd_of_int [of 1] by simp

lemma rnd_numeral [simp]:
  "(numeral n :: int) < 2 ^ 53 \<Longrightarrow> rnd (numeral n) = Num (numeral n)"
  using rnd_of_int [of "numeral n"] by simp

lemma rnd_neg_numeral [simp]:
  "(numeral n :: int) < 2 ^ 53 \<Longrightarrow> rnd (- numeral n) = Num (- numeral n)"
  using rnd_of_int [of "- numeral n"] by simp

lemma rnd_half [simp]: "rnd (1 / 2) = Num (1 / 2)"
  using rnd_dyadic [of 1 1] by simp

lemma rnd_numeral_half [simp]:
  "(numeral n :: int) < 2 ^ 53 \<Longrightarrow> rnd (numeral n / 2) = Num (numeral n / 2)"
  using rnd_dyadic [of "numeral n" 1] by simp

lemma rnd_quarter [simp]: "rnd (1 / 4) = Num (1 / 4)"
  using rnd_dyadic [of 1 2] by simp

lemma rnd_not_NaN: "rnd x \<noteq> NaN"
  by (simp add: rnd_def Let_def)

subsection \<open>Overflow\<close>

lemma round_half_even_ge: "of_int k \<le> q \<Longrightarrow> k \<le> round_half_even q"
proof -
  assume "of_int k \<le> q"
  then have "k \<le> \<lfloor>q\<rfloor>" by (simp add: le_floor_iff)
  moreover have "\<lfloor>q\<rfloor> \<le> round_half_even q" by (simp add: round_half_even_def Let_def)
  ultimately show ?thesis by simp
qed

lemma rnd_overflow:
  assumes "overflow_threshold \<le> x"
  shows "rnd x = Infinity"
proof -
  have t: "overflow_threshold = 2 powr 1024"
    unfolding overflow_threshold_def by (simp add: powr_realpow flip: powr_numeral)
  have pos: "0 < x" using assms t powr_gt_zero [of 2 1024] by linarith
  define e where "e = \<lfloor>log 2 x\<rfloor>"
  have "real_of_int 1024 \<le> log 2 x" using assms pos t by (simp add: le_log_iff)
  then have e: "1024 \<le> e" unfolding e_def by (subst le_floor_iff)
  have be: "binade x = e" using pos e by (simp add: binade_def e_def)
  have lo: "2 powr real_of_int e \<le> x"
    using pos floor_log_eq_powr_iff [of x 2 e] by (simp add: e_def)
  have u: "ulp x = 2 powr real_of_int (e - 52)" by (simp add: ulp_def be)
  have "2 powr 52 = 2 powr real_of_int e / 2 powr real_of_int (e - 52)"
    by (simp flip: powr_diff)
  also have "\<dots> \<le> x / ulp x" unfolding u using lo by (simp add: divide_right_mono)
  finally have "of_int (2 ^ 52) \<le> x / ulp x" by (simp add: powr_realpow flip: powr_numeral)
  then have "2 ^ 52 \<le> round_half_even (x / ulp x)" by (rule round_half_even_ge)
  then have "real_of_int (2 ^ 52) \<le> real_of_int (round_half_even (x / ulp x))"
    by (simp only: of_int_le_iff)
  then have "2 powr 52 \<le> real_of_int (round_half_even (x / ulp x))"
    by (simp add: powr_realpow flip: powr_numeral)
  then have "2 powr 52 * ulp x \<le> real_of_int (round_half_even (x / ulp x)) * ulp x"
    using ulp_pos [of x] by (simp add: mult_right_mono)
  moreover have "2 powr 52 * ulp x = 2 powr real_of_int e"
  proof -
    have "2 powr 52 * 2 powr real_of_int (e - 52) = 2 powr (52 + real_of_int (e - 52))"
      by (rule powr_add [symmetric])
    also have "52 + real_of_int (e - 52) = real_of_int e" by simp
    finally show ?thesis by (simp only: u)
  qed
  moreover have "2 powr 1024 \<le> 2 powr real_of_int e" using e by (intro powr_mono) simp_all
  ultimately have "overflow_threshold \<le> real_of_int (round_half_even (x / ulp x)) * ulp x"
    unfolding t by linarith
  then show ?thesis by (simp add: rnd_def Let_def)
qed

subsection \<open>Evaluating a rounding\<close>

text \<open>
  Evaluating a rounding in a normal binade: for \<open>x\<close> with \<open>2\<^sup>a \<le> \<bar>x\<bar> * 2\<^sup>b < 2\<^sup>a\<^sup>+\<^sup>1\<close>
  the unit in the last place is \<open>2\<^sup>a / 2\<^sup>b\<^sup>+\<^sup>5\<^sup>2\<close>.
\<close>

lemma rnd_normalI:
  assumes lo: "2 ^ a \<le> \<bar>x\<bar> * 2 ^ b" and hi: "\<bar>x\<bar> * 2 ^ b < 2 * 2 ^ a"
    and e: "int b \<le> int a + 1022" "int a \<le> int b + 1022"
    and n: "of_int n - 1 / 2 < x * 2 ^ (b + 52) / 2 ^ a" "x * 2 ^ (b + 52) / 2 ^ a < of_int n + 1 / 2"
  shows "rnd x = Num (of_int n * 2 ^ a / 2 ^ (b + 52))"
proof -
  have x0: "x \<noteq> 0"
  proof
    assume "x = 0"
    with lo have "(2::real) ^ a \<le> 0" by simp
    moreover have "(0::real) < 2 ^ a" by (rule zero_less_power) simp
    ultimately show False by linarith
  qed
  have pw: "2 powr real_of_int (int a - int b) = 2 ^ a / 2 ^ b"
    by (simp add: powr_diff powr_realpow)
  have pw1: "2 powr real_of_int (int a - int b + 1) = 2 * 2 ^ a / 2 ^ b"
    by (simp add: powr_diff powr_add powr_realpow)
  have l: "2 powr real_of_int (int a - int b) \<le> \<bar>x\<bar>"
    unfolding pw using lo by (simp add: field_simps)
  have h: "\<bar>x\<bar> < 2 powr real_of_int (int a - int b + 1)"
    unfolding pw1 using hi by (simp add: field_simps)
  from binade_bounds [OF x0 l h] e have b: "binade x = int a - int b" by simp
  have u: "ulp x = 2 ^ a / 2 ^ (b + 52)"
    by (simp add: ulp_def b powr_diff powr_realpow power_add)
  have q: "x / ulp x = x * 2 ^ (b + 52) / 2 ^ a" by (simp add: u)
  have r: "round_half_even (x / ulp x) = n"
    unfolding q using n by (rule round_half_even_eqI)
  define q where "q = x * 2 ^ (b + 52) / 2 ^ a"
  have "\<bar>q\<bar> = \<bar>x\<bar> * 2 ^ b * 2 ^ 52 / 2 ^ a"
    by (simp add: q_def abs_mult abs_divide power_add)
  also have "\<dots> < 2 * 2 ^ a * 2 ^ 52 / 2 ^ a"
    using hi by (intro divide_strict_right_mono mult_strict_right_mono) simp_all
  finally have "\<bar>q\<bar> < 2 ^ 53" by simp
  then have qb: "q < 2 ^ 53" "- (2 ^ 53) < q" by (rule abs_less_iff [THEN iffD1, THEN conjunct1])
      (use \<open>\<bar>q\<bar> < 2 ^ 53\<close> in linarith)
  have nq: "of_int n - 1 / 2 < q" "q < of_int n + 1 / 2" using n by (simp_all add: q_def)
  have "real_of_int n < real_of_int (2 ^ 53 + 1)" using nq(1) qb(1) by simp
  then have n1: "n < 2 ^ 53 + 1" by (simp only: of_int_less_iff)
  have "real_of_int (- (2 ^ 53) - 1) < real_of_int n" using nq(2) qb(2) by simp
  then have n2: "- (2 ^ 53) - 1 < n" by (simp only: of_int_less_iff)
  from n1 n2 have "\<bar>n\<bar> \<le> 2 ^ 53" by linarith
  then have nb: "real_of_int \<bar>n\<bar> \<le> 2 ^ 53" by (metis of_int_le_numeral_power_cancel_iff)
  have "\<bar>of_int n * ulp x\<bar> \<le> 2 ^ 53 * (2 ^ a / 2 ^ (b + 52))"
    unfolding u abs_mult using nb by (intro mult_mono) simp_all
  also have "\<dots> = 2 * (2 ^ a / 2 ^ b)" by (simp add: power_add)
  also have "\<dots> = 2 powr real_of_int (int a - int b + 1)" by (simp only: pw1)
  also have "\<dots> \<le> 2 powr real_of_int 1023" using e by (intro powr_mono) simp_all
  also have "\<dots> < overflow_threshold"
    unfolding overflow_threshold_def by (simp add: powr_realpow flip: powr_numeral)
  finally have bound: "\<bar>of_int n * ulp x\<bar> < overflow_threshold" .
  have "rnd x = Num (of_int n * ulp x)"
    unfolding rnd_def r Let_def using bound by auto
  then show ?thesis by (simp add: u)
qed

subsection \<open>Rounding is visible\<close>

text \<open>
  In a container of 100 pixels the client position 58 is stored as \<open>57.99999999999999\<close>:
  \<open>58 / 100\<close> rounds to a double just below \<open>0.58\<close>, and its product with \<open>100\<close> rounds to
  the double below \<open>58\<close>.
\<close>

lemma rnd_58_percent: "rnd (58 / 100) = Num (5224175567749775 / 2 ^ 53)"
  using rnd_normalI [where x = "58 / 100" and a = 0 and b = 1 and n = 5224175567749775]
  by simp

lemma rnd_58_scaled: "rnd (5224175567749775 / 2 ^ 53 * 100) = Num (8162774324609023 / 2 ^ 47)"
  using rnd_normalI [where x = "5224175567749775 / 2 ^ 53 * 100" and a = 5 and b = 0
      and n = 8162774324609023]
  by simp

lemma getMousePos_client_58:
  "getMousePos (Some box) (pointer_at (58, 58)) =
     (Num (8162774324609023 / 2 ^ 47), Num (8162774324609023 / 2 ^ 47))"
  using rnd_58_percent rnd_58_scaled
  by (simp add: getMousePos_def box_def pointer_at_def jsub_def jmul_def)

section \<open>The geometry kernel\<close>

subsection \<open>The comparison orders the numbers that are not NaN\<close>

lemma jgt_irrefl: "\<not> jgt a a"
  by (cases a) simp_all

lemma jgt_trans: "jgt a b \<Longrightarrow> jgt b c \<Longrightarrow> jgt a c"
  by (cases a; cases b; cases c) simp_all

lemma jgt_not_NaN: "jgt a b \<Longrightarrow> a \<noteq> NaN \<and> b \<noteq> NaN"
  by (cases a; cases b) simp_all

lemma jgt_total: "a \<noteq> NaN \<Longrightarrow> b \<noteq> NaN \<Longrightarrow> \<not> jgt a b \<Longrightarrow> \<not> jgt b a \<Longrightarrow> a = b"
  by (cases a; cases b) simp_all

lemma greatest_of_unique: "greatest_of M S \<Longrightarrow> greatest_of M' S \<Longrightarrow> M = M'"
  by (auto simp: greatest_of_def intro: jgt_total)

lemma greatest_of_step:
  assumes "greatest_of m A"
  shows "greatest_of (if jgt d m then d else m) (insert d A)"
proof (cases "jgt d m")
  case True
  have "\<not> jgt a d" if "a \<in> A" for a
  proof
    assume "jgt a d"
    from this True have "jgt a m" by (rule jgt_trans)
    with assms that show False by (simp add: greatest_of_def)
  qed
  with True show ?thesis by (auto simp: greatest_of_def jgt_irrefl dest: jgt_not_NaN)
next
  case False
  with assms show ?thesis by (auto simp: greatest_of_def)
qed

subsection \<open>The loops compute the greatest squared distance over all pairs\<close>

lemma inner_loop_greatest:
  assumes "greatest_of m A"
  shows "greatest_of (inner_loop ps i j m)
           (A \<union> (\<lambda>k. pairDistSq (ps ! i) (ps ! k)) ` {j..<length ps})"
  using assms
proof (induction "length ps - j" arbitrary: j m A)
  case 0
  then have "\<not> j < length ps" by simp
  with 0 show ?case by (simp add: inner_loop.simps)
next
  case (Suc n)
  then have lt: "j < length ps" by simp
  have n: "n = length ps - (j + 1)" using Suc.hyps(2) by simp
  let ?d = "pairDistSq (ps ! i) (ps ! j)"
  let ?f = "\<lambda>k. pairDistSq (ps ! i) (ps ! k)"
  have row: "{j..<length ps} = insert j {j + 1..<length ps}" using lt by auto
  have unf: "inner_loop ps i j m = inner_loop ps i (j + 1) (if jgt ?d m then ?d else m)"
    using lt by (subst inner_loop.simps) (simp add: pairDistSq_def Let_def)
  have "greatest_of (if jgt ?d m then ?d else m) (insert ?d A)"
    using Suc.prems by (rule greatest_of_step)
  from Suc.hyps(1) [OF n this]
  have "greatest_of (inner_loop ps i j m) (insert ?d A \<union> ?f ` {j + 1..<length ps})"
    by (simp only: unf)
  moreover have "insert ?d A \<union> ?f ` {j + 1..<length ps} = A \<union> ?f ` {j..<length ps}"
    by (subst row) simp
  ultimately show ?case by simp
qed

lemma pairs_from_step:
  "i < n \<Longrightarrow> pairs_from i n = Pair i ` {i + 1..<n} \<union> pairs_from (i + 1) n"
  by (auto simp: pairs_from_def)

lemma pairs_from_empty: "n \<le> i \<Longrightarrow> pairs_from i n = {}"
  by (auto simp: pairs_from_def)

lemma outer_loop_greatest:
  assumes "greatest_of m A"
  shows "greatest_of (outer_loop ps i m)
           (A \<union> (\<lambda>(a, b). pairDistSq (ps ! a) (ps ! b)) ` pairs_from i (length ps))"
  using assms
proof (induction "length ps - i" arbitrary: i m A)
  case 0
  then have "length ps \<le> i" by simp
  with 0 show ?case by (simp add: outer_loop.simps pairs_from_empty)
next
  case (Suc n)
  then have lt: "i < length ps" by simp
  have n: "n = length ps - (i + 1)" using Suc.hyps(2) by simp
  let ?g = "\<lambda>(a, b). pairDistSq (ps ! a) (ps ! b)"
  let ?R = "(\<lambda>k. pairDistSq (ps ! i) (ps ! k)) ` {i + 1..<length ps}"
  have img: "?g ` pairs_from i (length ps) = ?R \<union> ?g ` pairs_from (i + 1) (length ps)"
    by (subst pairs_from_step [OF lt]) (simp add: image_Un image_image)
  have unf: "outer_loop ps i m = outer_loop ps (i + 1) (inner_loop ps i (i + 1) m)"
    using lt by (subst outer_loop.simps) simp
  have "greatest_of (inner_loop ps i (i + 1) m) (A \<union> ?R)"
    using Suc.prems by (rule inner_loop_greatest)
  from Suc.hyps(1) [OF n this]
  have "greatest_of (outer_loop ps i m) (A \<union> ?R \<union> ?g ` pairs_from (i + 1) (length ps))"
    by (simp only: unf)
  then show ?case by (simp only: img Un_assoc)
qed

lemma pairs_image:
  "{pairDistSq (ps ! i) (ps ! j) | i j. i < j \<and> j < length ps} =
     (\<lambda>(a, b). pairDistSq (ps ! a) (ps ! b)) ` pairs_from 0 (length ps)"
  by (auto simp: pairs_from_def image_iff)

lemma longest_345:
  "calculateLongestDistance [(Num 0, Num 0), (Num 0, Num 3), (Num 4, Num 0)] = Num 17"
  by (simp add: calculateLongestDistance_def outer_loop.simps inner_loop.simps
      jsub_def jmul_def Let_def)

text \<open>
  The doubles nearest to \<open>4.8\<close> and \<open>3.6\<close>: the squares round so that their sum is the
  double \<open>36\<close>, and the result is \<open>21\<close>, although the exact distance of the two points is
  less than \<open>6\<close>.
\<close>

lemma longest_two:
  "calculateLongestDistance [p, q] =
     jfloor (jmul (jsqrt (if jgt (pairDistSq p q) (Num 0) then pairDistSq p q else Num 0))
       (Num 3.5))"
  by (simp add: calculateLongestDistance_def outer_loop.simps inner_loop.simps pairDistSq_def
      Let_def)

lemma longest_rounded:
  "calculateLongestDistance
     [(Num 0, Num 0), (Num (5404319552844595 / 2 ^ 50), Num (8106479329266893 / 2 ^ 51))] = Num 21"
proof -
  define A :: real where "A = 5404319552844595 / 2 ^ 50"
  define B :: real where "B = 8106479329266893 / 2 ^ 51"
  define AA :: real where "AA = 6485183463413514 * 2 ^ 4 / 2 ^ 52"
  define BB :: real where "BB = 7295831396340204 * 2 ^ 3 / 2 ^ 52"
  have a: "rnd (- A) = Num (- A)"
    using rnd_dyadic [of "- 5404319552844595" 50] by (simp add: A_def)
  have b: "rnd (- B) = Num (- B)"
    using rnd_dyadic [of "- 8106479329266893" 51] by (simp add: B_def)
  have aa: "rnd (A * A) = Num AA"
    using rnd_normalI [where x = "A * A" and a = 4 and b = 0 and n = 6485183463413514]
    by (simp add: A_def AA_def)
  have bb: "rnd (B * B) = Num BB"
    using rnd_normalI [where x = "B * B" and a = 3 and b = 0 and n = 7295831396340204]
    by (simp add: B_def BB_def)
  have s: "rnd (AA + BB) = Num 36"
    using rnd_normalI [where x = "AA + BB" and a = 5 and b = 0 and n = 5066549580791808]
    by (simp add: AA_def BB_def)
  have d: "pairDistSq (Num 0, Num 0) (Num A, Num B) = Num 36"
    by (simp add: pairDistSq_def jsub_def jmul_def Let_def a b aa bb s)
  have "calculateLongestDistance [(Num 0, Num 0), (Num A, Num B)] = Num 21"
    unfolding longest_two d by (simp add: jmul_def)
  then show ?thesis by (simp only: A_def B_def)
qed

subsection \<open>Claim C2\<close>

text \<open>
  C2, as stated, fails: \<^verbatim>\<open>calculateLongestDistance\<close> ends with \<^verbatim>\<open>Math.floor\<close>, so for the
  points \<open>(0,0)\<close>, \<open>(0,3)\<close>, \<open>(4,0)\<close>, whose longest pairwise distance is \<open>5\<close>, it returns
  \<open>17\<close> and not \<open>5 \<times> 3.5 = 17.5\<close>.
\<close>

theorem calculateLongestDistance_not_scaled_max:
  "calculateLongestDistance [(Num 0, Num 0), (Num 0, Num 3), (Num 4, Num 0)] = Num 17 \<and>
   calculateLongestDistance [(Num 0, Num 0), (Num 0, Num 3), (Num 4, Num 0)] \<noteq> Num (5 * 3.5)"
  by (simp add: longest_345)

text \<open>
  C2, amended: for every list of points, \<^verbatim>\<open>calculateLongestDistance\<close> returns
  \<^verbatim>\<open>Math.floor(Math.sqrt(M) * 3.5)\<close>, where \<open>M\<close> is the greatest of \<open>0\<close> and the squared
  distances \<^verbatim>\<open>dx*dx + dy*dy\<close> of all unordered pairs of points, every operation rounded
  to the nearest double: the floor of the scale constant times the Euclidean (not
  squared) distance of a farthest pair, as double arithmetic computes it.
\<close>

theorem calculateLongestDistance_floor_scaled_max:
  "\<exists>M. greatest_of M
          (insert (Num 0) {pairDistSq (ps ! i) (ps ! j) | i j. i < j \<and> j < length ps}) \<and>
        calculateLongestDistance ps = jfloor (jmul (jsqrt M) (Num 3.5))"
proof -
  have "greatest_of (Num 0) {Num 0}" by (simp add: greatest_of_def)
  then have "greatest_of (outer_loop ps 0 (Num 0))
      ({Num 0} \<union> (\<lambda>(a, b). pairDistSq (ps ! a) (ps ! b)) ` pairs_from 0 (length ps))"
    by (rule outer_loop_greatest)
  then have "greatest_of (outer_loop ps 0 (Num 0))
      (insert (Num 0) {pairDistSq (ps ! i) (ps ! j) | i j. i < j \<and> j < length ps})"
    by (simp add: pairs_image)
  then show ?thesis by (auto simp: calculateLongestDistance_def Let_def)
qed

text \<open>
  The amended statement at the 3-4-5 triangle: the squared distances are \<open>9\<close>, \<open>16\<close> and
  \<open>25\<close>, the greatest is \<open>25\<close>, and the result is the floor of \<open>5 \<times> 3.5\<close>.
\<close>

theorem calculateLongestDistance_floor_scaled_max_witness:
  "greatest_of (Num 25)
     (insert (Num 0) {pairDistSq ([(Num 0, Num 0), (Num 0, Num 3), (Num 4, Num 0)] ! i)
                                 ([(Num 0, Num 0), (Num 0, Num 3), (Num 4, Num 0)] ! j) | i j.
        i < j \<and> j < length [(Num 0, Num 0), (Num 0, Num 3), (Num 4, Num 0)]}) \<and>
   calculateLongestDistance [(Num 0, Num 0), (Num 0, Num 3), (Num 4, Num 0)] = Num 17"
proof -
  let ?ps = "[(Num 0, Num 0), (Num 0, Num 3), (Num 4, Num 0)]"
  let ?S = "insert (Num 0) {pairDistSq (?ps ! i) (?ps ! j) | i j. i < j \<and> j < length ?ps}"
  have pairs: "{(i, j). i < j \<and> j < length ?ps} = {(0, 1), (0, 2), (1, 2)}"
    by (auto simp: less_Suc_eq numeral_3_eq_3)
  have "{pairDistSq (?ps ! i) (?ps ! j) | i j. i < j \<and> j < length ?ps} =
      (\<lambda>(i, j). pairDistSq (?ps ! i) (?ps ! j)) ` {(i, j). i < j \<and> j < length ?ps}"
    by auto
  also have "\<dots> = {Num 9, Num 16, Num 25}"
    by (simp only: pairs) (simp add: pairDistSq_def jsub_def jmul_def Let_def)
  finally have S: "?S = {Num 0, Num 9, Num 16, Num 25}" by simp
  have g: "greatest_of (Num 25) ?S" by (simp only: S) (simp add: greatest_of_def)
  from calculateLongestDistance_floor_scaled_max [of ?ps]
  obtain M where M: "greatest_of M ?S"
    and r: "calculateLongestDistance ?ps = jfloor (jmul (jsqrt M) (Num 3.5))"
    by blast
  from M g have "M = Num 25" by (rule greatest_of_unique)
  with r have "calculateLongestDistance ?ps = Num 17" by (simp add: jmul_def)
  with g show ?thesis by simp
qed

section \<open>The view transform\<close>

subsection \<open>Claim C1\<close>

text \<open>
  C1 says that stored geometry is zoom- and pan-invariant: mapping the device position at
  which a stored point is rendered back through \<^verbatim>\<open>getMousePos\<close> yields the same point,
  for every zoom factor and pan offset. The code does not do this: \<^verbatim>\<open>getMousePos\<close> reads
  neither \<^verbatim>\<open>zoom\<close> nor \<^verbatim>\<open>pan\<close>. In a container of 800 by 600 pixels at zoom 2 without
  pan, the stored point \<open>(25, 25)\<close> is drawn at the client position \<open>(400, 300)\<close>, the
  centre of the container, and a pointer event there is mapped to \<open>(50, 50)\<close>.
\<close>

theorem getMousePos_ignores_zoom:
  "transformLayer canvas 2 (0, 0) (25, 25) = (400, 300) \<and>
   getMousePos (Some canvas) (pointer_at (transformLayer canvas 2 (0, 0) (25, 25))) =
     (Num 50, Num 50) \<and>
   getMousePos (Some canvas) (pointer_at (transformLayer canvas 2 (0, 0) (25, 25))) \<noteq>
     (Num 25, Num 25)"
  by (simp add: transformLayer_def canvas_def getMousePos_def pointer_at_def jsub_def jmul_def)

subsection \<open>Claim C3\<close>

text \<open>
  C3, as stated, fails: the guard of \<^verbatim>\<open>getMousePos\<close> tests only whether there is a
  container. For a container of zero width and height the divisions by zero give
  \<^verbatim>\<open>Infinity\<close>, not the point \<open>{0,0}\<close>.
\<close>

theorem getMousePos_zero_extent:
  "getMousePos (Some \<lparr>rect_left = 0, rect_top = 0, rect_width = 0, rect_height = 0\<rparr>)
     (pointer_at (10, 10)) = (Infinity, Infinity)"
  by (simp add: getMousePos_def pointer_at_def jsub_def jmul_def)

text \<open>
  More generally, a container of zero width never gives a finite x coordinate, and one of
  zero height never a finite y coordinate.
\<close>

lemma scaled_quotient_by_zero:
  "jmul (jdiv (jsub (Num a) (Num b)) (Num 0)) (Num 100) \<in> {Infinity, NegInfinity, NaN}"
proof (cases "rnd (a - b)")
  case NaN
  with rnd_not_NaN show ?thesis by simp
qed (simp_all add: jsub_def jmul_def)

lemma getMousePos_zero_width:
  "rect_width rect = 0 \<Longrightarrow> fst (getMousePos (Some rect) e) \<in> {Infinity, NegInfinity, NaN}"
  using scaled_quotient_by_zero [of "clientX e" "rect_left rect"]
  by (simp add: getMousePos_def)

lemma getMousePos_zero_height:
  "rect_height rect = 0 \<Longrightarrow> snd (getMousePos (Some rect) e) \<in> {Infinity, NegInfinity, NaN}"
  using scaled_quotient_by_zero [of "clientY e" "rect_top rect"]
  by (simp add: getMousePos_def)

text \<open>
  C3, amended: for every device point, when there is no container at all
  \<^verbatim>\<open>getMousePos\<close> returns the degenerate point \<open>{0,0}\<close>.
\<close>

theorem getMousePos_no_container:
  "getMousePos None e = (Num 0, Num 0)"
  by (simp add: getMousePos_def)

text \<open>No container, and a pointer anywhere.\<close>

theorem getMousePos_no_container_witness:
  "getMousePos None (pointer_at (400, 150)) = (Num 0, Num 0)"
  using getMousePos_no_container [of "pointer_at (400, 150)"] .

section \<open>The interaction state machine\<close>

subsection \<open>Pointer-up at the end of a draw gesture\<close>

lemma handleMouseUp_commit:
  assumes "\<not> isPanning s" "dragState s = None" "isDrawing s" "2 \<le> length (finalPoints s)"
  shows "handleMouseUp idDraw huDraw s =
     s\<lparr>isDrawing := False, rois := rois s @ [newROI idDraw huDraw (finalPoints s)],
       currentPoints := [], tool := Select\<rparr>"
  using assms by (simp add: handleMouseUp_def)

lemma finalPoints_rect:
  assumes "tool s = RectTool" "2 \<le> length (currentPoints s)"
    "hd (currentPoints s) = (x1, y1)" "last (currentPoints s) = (x2, y2)"
  shows "finalPoints s = [(x1, y1), (x2, y1), (x2, y2), (x1, y2)]"
proof -
  have ne: "currentPoints s \<noteq> []" using assms(2) by auto
  have "currentPoints s ! 0 = (x1, y1)" using assms(3) ne by (simp add: hd_conv_nth)
  moreover have "currentPoints s ! (length (currentPoints s) - 1) = (x2, y2)"
    using assms(4) ne by (simp add: last_conv_nth)
  ultimately show ?thesis using assms(1,2) by (simp add: finalPoints_def)
qed

lemma shoelace_rect:
  "shoelace [(Num a, Num b), (Num c, Num b), (Num c, Num d), (Num a, Num d)] =
     Num (2 * ((c - a) * (d - b)))"
  by (simp add: shoelace_def algebra_simps)

subsection \<open>Claim C4\<close>

text \<open>
  C4, as stated, fails in one word: the polygon is not clockwise for every rect gesture.
  Dragging from \<open>(10,40)\<close> to \<open>(50,10)\<close> (up and to the right) commits
  \<open>[(10,40),(50,40),(50,10),(10,10)]\<close>, which runs counter-clockwise on the screen: its
  shoelace sum is \<open>-2400\<close>, the opposite of the sum \<open>2400\<close> of the polygon
  \<open>[(10,10),(50,10),(50,40),(10,40)]\<close> of a drag from \<open>(10,10)\<close> to \<open>(50,40)\<close>, so the
  two wind in opposite senses whichever way the y axis is taken to point.
\<close>

theorem rect_commit_counterclockwise:
  "points (last (rois (handleMouseUp ''a'' 0
      (drawing RectTool [(Num 10, Num 40), (Num 50, Num 10)])))) =
     [(Num 10, Num 40), (Num 50, Num 40), (Num 50, Num 10), (Num 10, Num 10)] \<and>
   shoelace [(Num 10, Num 40), (Num 50, Num 40), (Num 50, Num 10), (Num 10, Num 10)] =
     Num (- 2400) \<and>
   shoelace [(Num 10, Num 10), (Num 50, Num 10), (Num 50, Num 40), (Num 10, Num 40)] =
     Num 2400 \<and>
   \<not> clockwise (points (last (rois (handleMouseUp ''a'' 0
      (drawing RectTool [(Num 10, Num 40), (Num 50, Num 10)])))))"
  by (simp add: drawing_def initial_def handleMouseUp_def finalPoints_def newROI_def
      clockwise_def shoelace_def)

text \<open>
  C4, amended: for every rect-tool draw gesture whose accumulated point list holds at
  least two points, with first corner \<open>(x1,y1)\<close> and last corner \<open>(x2,y2)\<close>, pointer-up
  commits exactly the ordered 4-point polygon \<open>[(x1,y1),(x2,y1),(x2,y2),(x1,y2)]\<close> rooted
  at the original down-point; its point count is always 4, and for finite corners it is
  clockwise on the screen exactly when \<open>(x2 - x1) * (y2 - y1) > 0\<close>.
\<close>

theorem rect_commit:
  assumes "\<not> isPanning s" "dragState s = None" "isDrawing s" "tool s = RectTool"
    "2 \<le> length (currentPoints s)"
    "hd (currentPoints s) = (x1, y1)" "last (currentPoints s) = (x2, y2)"
  shows "\<exists>r. rois (handleMouseUp idDraw huDraw s) = rois s @ [r] \<and>
           points r = [(x1, y1), (x2, y1), (x2, y2), (x1, y2)] \<and> length (points r) = 4 \<and>
           (\<forall>a b c d. x1 = Num a \<and> y1 = Num b \<and> x2 = Num c \<and> y2 = Num d \<longrightarrow>
              clockwise (points r) = (0 < (c - a) * (d - b)))"
proof -
  have fp: "finalPoints s = [(x1, y1), (x2, y1), (x2, y2), (x1, y2)]"
    using assms(4-7) by (rule finalPoints_rect)
  then have "2 \<le> length (finalPoints s)" by simp
  from handleMouseUp_commit [OF assms(1-3) this]
  have "rois (handleMouseUp idDraw huDraw s) =
      rois s @ [newROI idDraw huDraw [(x1, y1), (x2, y1), (x2, y2), (x1, y2)]]"
    by (simp add: fp)
  moreover have "points (newROI idDraw huDraw [(x1, y1), (x2, y1), (x2, y2), (x1, y2)]) =
      [(x1, y1), (x2, y1), (x2, y2), (x1, y2)]"
    by (simp add: newROI_def)
  ultimately show ?thesis
    by (auto simp: clockwise_def shoelace_rect zero_less_mult_iff)
qed

text \<open>
  The two drags of the specification, from \<open>(10,10)\<close> to \<open>(50,40)\<close> and back: both give
  four points, the corners of \<open>[10,50] \<times> [10,40]\<close>, and both are clockwise.
\<close>

theorem rect_commit_witness:
  "set (points (last (rois (handleMouseUp ''a'' 0
      (drawing RectTool [(Num 10, Num 10), (Num 50, Num 40)]))))) =
     {Num 10, Num 50} \<times> {Num 10, Num 40} \<and>
   set (points (last (rois (handleMouseUp ''a'' 0
      (drawing RectTool [(Num 50, Num 40), (Num 10, Num 10)]))))) =
     {Num 10, Num 50} \<times> {Num 10, Num 40} \<and>
   length (points (last (rois (handleMouseUp ''a'' 0
      (drawing RectTool [(Num 10, Num 10), (Num 50, Num 40)]))))) = 4 \<and>
   length (points (last (rois (handleMouseUp ''a'' 0
      (drawing RectTool [(Num 50, Num 40), (Num 10, Num 10)]))))) = 4 \<and>
   clockwise (points (last (rois (handleMouseUp ''a'' 0
      (drawing RectTool [(Num 10, Num 10), (Num 50, Num 40)]))))) \<and>
   clockwise (points (last (rois (handleMouseUp ''a'' 0
      (drawing RectTool [(Num 50, Num 40), (Num 10, Num 10)])))))"
  using rect_commit [of "drawing RectTool [(Num 10, Num 10), (Num 50, Num 40)]"
      "Num 10" "Num 10" "Num 50" "Num 40" "''a''" 0]
    rect_commit [of "drawing RectTool [(Num 50, Num 40), (Num 10, Num 10)]"
      "Num 50" "Num 40" "Num 10" "Num 10" "''a''" 0]
  by (auto simp: drawing_def initial_def)

subsection \<open>Claim C6\<close>

text \<open>
  C6, as stated, fails in its freshness clause: the id is a rendering of
  \<^verbatim>\<open>Math.random()\<close> and is not compared with the ids in the store. When two gestures
  draw the same random number, the second commit gets the id the first ROI already has.
\<close>

theorem commit_reuses_id:
  "map roi_id (rois second_gesture) = [''i''] \<and>
   map roi_id (rois (handleMouseUp ''i'' 0.5 second_gesture)) = [''i'', ''i''] \<and>
   roi_id (last (rois (handleMouseUp ''i'' 0.5 second_gesture))) \<in>
     roi_id ` set (rois second_gesture)"
  by (simp add: second_gesture_def drawing_def initial_def handleMouseUp_def finalPoints_def
      newROI_def)

text \<open>The same two gestures as a run of events on a freshly mounted, empty editor.\<close>

lemma two_gestures_same_id:
  "(case run [SetTool Pencil, MouseDown (Some box) (pointer_at (10, 10)),
              MouseMove (Some box) (pointer_at (20, 20)), MouseUp ''i'' 0.5,
              SetTool Pencil, MouseDown (Some box) (pointer_at (30, 30)),
              MouseMove (Some box) (pointer_at (40, 40)), MouseUp ''i'' 0.5] (initial [])
    of Inl err \<Rightarrow> False | Inr s \<Rightarrow> map roi_id (rois s) = [''i'', ''i''])"
  by (simp add: initial_def handleMouseDown_def handleMouseMove_def handleMouseUp_def
      finalPoints_def newROI_def pointer_at_def Let_def)

text \<open>
  C6, amended: for every draw gesture whose final point list has at least 2 points,
  pointer-up appends exactly one new ROIAnnotation to the store, whose id is the string
  rendered from the random draw (it is not checked against the ids already present),
  with \<open>isConfirmed = true\<close>, the final point list as its points and
  \<open>measurements.length\<close> computed from that list; after the commit the active tool is
  \<open>select\<close>, the gesture is over and the accumulated points are cleared.
\<close>

theorem commit_appends:
  assumes "\<not> isPanning s" "dragState s = None" "isDrawing s" "2 \<le> length (finalPoints s)"
  shows "\<exists>r. rois (handleMouseUp idDraw huDraw s) = rois s @ [r] \<and>
           roi_id r = idDraw \<and> isConfirmed r \<and> points r = finalPoints s \<and>
           roi_length r = Some (calculateLongestDistance (finalPoints s)) \<and>
           tool (handleMouseUp idDraw huDraw s) = Select \<and>
           \<not> isDrawing (handleMouseUp idDraw huDraw s) \<and>
           currentPoints (handleMouseUp idDraw huDraw s) = []"
  using handleMouseUp_commit [OF assms, of idDraw huDraw]
  by (simp add: newROI_def roi_length_def)

text \<open>A pencil stroke over the 3-4-5 triangle: one ROI, confirmed, of length 17.\<close>

theorem commit_appends_witness:
  "map roi_id (rois (handleMouseUp ''k3x9'' 0.5
      (drawing Pencil [(Num 0, Num 0), (Num 0, Num 3), (Num 4, Num 0)]))) = [''k3x9''] \<and>
   map isConfirmed (rois (handleMouseUp ''k3x9'' 0.5
      (drawing Pencil [(Num 0, Num 0), (Num 0, Num 3), (Num 4, Num 0)]))) = [True] \<and>
   map roi_length (rois (handleMouseUp ''k3x9'' 0.5
      (drawing Pencil [(Num 0, Num 0), (Num 0, Num 3), (Num 4, Num 0)]))) = [Some (Num 17)] \<and>
   tool (handleMouseUp ''k3x9'' 0.5
      (drawing Pencil [(Num 0, Num 0), (Num 0, Num 3), (Num 4, Num 0)])) = Select"
  using commit_appends [of "drawing Pencil [(Num 0, Num 0), (Num 0, Num 3), (Num 4, Num 0)]"
      "''k3x9''" "0.5"] longest_345
  by (auto simp: drawing_def initial_def finalPoints_def)

subsection \<open>Claim C7\<close>

text \<open>
  C7: a draw gesture whose accumulated point count is fewer than 2 is discarded: pointer-up
  leaves the ROI list unchanged. In particular a pointer-down with a drawing tool (not the
  panning button) followed at once by pointer-up accumulates one point and leaves the ROI
  list unchanged.
\<close>

theorem short_gesture_discarded:
  "(length (currentPoints s) < 2 \<longrightarrow> rois (handleMouseUp idDraw huDraw s) = rois s) \<and>
   (button e \<noteq> 1 \<and> tool s \<noteq> Select \<longrightarrow>
      length (currentPoints (handleMouseDown c e s)) = 1 \<and>
      rois (handleMouseUp idDraw huDraw (handleMouseDown c e s)) = rois s)"
  by (auto simp: handleMouseUp_def handleMouseDown_def finalPoints_def Let_def)

text \<open>A one-point pencil gesture, and a down and up with the rect tool over one proposal.\<close>

theorem short_gesture_discarded_witness:
  "rois (handleMouseUp ''k3x9'' 0.5 (drawing Pencil [(Num 10, Num 10)])) = [] \<and>
   rois (handleMouseUp ''k3x9'' 0.5
      (handleMouseDown (Some box) (pointer_at (10, 10))
         ((initial [measured ''a'' 10])\<lparr>tool := RectTool\<rparr>)))
     = [measured ''a'' 10]"
  using short_gesture_discarded [of "drawing Pencil [(Num 10, Num 10)]" "''k3x9''" "0.5"]
    short_gesture_discarded [where s = "(initial [measured ''a'' 10])\<lparr>tool := RectTool\<rparr>"
      and e = "pointer_at (10, 10)" and c = "Some box" and idDraw = "''k3x9''" and huDraw = "0.5"]
  by (simp add: drawing_def initial_def pointer_at_def)

subsection \<open>Claim C10\<close>

text \<open>
  C10: whatever the state and the tool, pointer-up either leaves the ROI list as it is or
  appends one ROI, and the ROI it appends has the type \<open>path\<close>.
\<close>

theorem committed_type_is_path:
  "rois (handleMouseUp idDraw huDraw s) = rois s \<or>
   (\<exists>r. rois (handleMouseUp idDraw huDraw s) = rois s @ [r] \<and> roi_type r = Path)"
  by (simp add: handleMouseUp_def newROI_def)

text \<open>A commit with the rect tool and one with the pencil tool: both ROIs are paths.\<close>

theorem committed_type_is_path_witness:
  "roi_type (last (rois (handleMouseUp ''k3x9'' 0.5
      (drawing RectTool [(Num 10, Num 10), (Num 50, Num 40)])))) = Path \<and>
   roi_type (last (rois (handleMouseUp ''k3x9'' 0.5
      (drawing Pencil [(Num 10, Num 10), (Num 50, Num 40)])))) = Path"
proof -
  have a: "rois (handleMouseUp ''k3x9'' 0.5 (drawing RectTool [(Num 10, Num 10), (Num 50, Num 40)])) \<noteq>
      rois (drawing RectTool [(Num 10, Num 10), (Num 50, Num 40)])"
    by (simp add: handleMouseUp_def drawing_def initial_def finalPoints_def)
  have b: "rois (handleMouseUp ''k3x9'' 0.5 (drawing Pencil [(Num 10, Num 10), (Num 50, Num 40)])) \<noteq>
      rois (drawing Pencil [(Num 10, Num 10), (Num 50, Num 40)])"
    by (simp add: handleMouseUp_def drawing_def initial_def finalPoints_def)
  show ?thesis
    using a b
      committed_type_is_path [of "''k3x9''" "0.5"
        "drawing RectTool [(Num 10, Num 10), (Num 50, Num 40)]"]
      committed_type_is_path [of "''k3x9''" "0.5"
        "drawing Pencil [(Num 10, Num 10), (Num 50, Num 40)]"]
    by auto
qed

subsection \<open>Dragging a vertex\<close>

text \<open>
  The drag state set by pointer-down names an ROI of the store and one of its vertices.
\<close>

lemma hit_points_in_range:
  "hit_points ps i x y threshold = Some k \<Longrightarrow> i \<le> k \<and> k < length ps"
proof (induction "length ps - i" arbitrary: i)
  case 0
  then show ?case by (simp add: hit_points.simps)
next
  case (Suc n)
  then have lt: "i < length ps" by simp
  have n: "n = length ps - (i + 1)" using Suc.hyps(2) by simp
  show ?case
  proof (cases "jlt (jabs (jsub (fst (ps ! i)) x)) threshold \<and>
      jlt (jabs (jsub (snd (ps ! i)) y)) threshold")
    case True
    with Suc.prems lt have "k = i" by (subst (asm) hit_points.simps) (simp add: Let_def)
    with lt show ?thesis by simp
  next
    case False
    with Suc.prems lt have "hit_points ps (i + 1) x y threshold = Some k"
      by (subst (asm) hit_points.simps) (auto simp: Let_def)
    from Suc.hyps(1) [OF n this] show ?thesis by simp
  qed
qed

lemma hit_rois_in_range:
  "hit_rois rs x y threshold = Some (roiId, k) \<Longrightarrow>
   \<exists>r\<in>set rs. roi_id r = roiId \<and> k < length (points r)"
  by (induction rs) (auto split: option.splits dest: hit_points_in_range)

lemma handleMouseDown_dragState:
  assumes "dragState (handleMouseDown c e s) = Some (roiId, k)" "dragState s = None"
  shows "\<exists>r\<in>set (rois s). roi_id r = roiId \<and> k < length (points r)"
  using assms
  by (auto simp: handleMouseDown_def Let_def split: if_splits option.splits
      dest: hit_rois_in_range)

lemma map_result_Inr:
  "(\<And>x. x \<in> set xs \<Longrightarrow> f x = Inr (g x)) \<Longrightarrow> map_result f xs = Inr (map g xs)"
  by (induction xs) simp_all

lemma drag_roi_in_range:
  "roi_id r = roiId \<Longrightarrow> i < length (points r) \<Longrightarrow>
   drag_roi roiId i xy r =
     Inr (r\<lparr>points := (points r)[i := xy], isConfirmed := True,
            measurements := Some (with_length (measurements r)
              (calculateLongestDistance ((points r)[i := xy])))\<rparr>)"
  by (simp add: drag_roi_def assign_index_def)

lemma drag_roi_other: "roi_id r \<noteq> roiId \<Longrightarrow> drag_roi roiId i xy r = Inr r"
  by (simp add: drag_roi_def)

lemma roi_length_with_length:
  "roi_length (r\<lparr>points := ps, isConfirmed := b, measurements := Some (with_length m len)\<rparr>) =
     Some len"
  by (cases m) (simp_all add: roi_length_def with_length_def)

text \<open>
  When the dragged id is carried by the ROI at position \<open>k\<close> only, the move rewrites
  position \<open>k\<close> and nothing else.
\<close>

lemma drag_move_unique:
  assumes "\<not> isPanning s" "dragState s = Some (roiId, i)" "k < length (rois s)"
    "roi_id (rois s ! k) = roiId" "i < length (points (rois s ! k))"
    "\<forall>k'<length (rois s). k' \<noteq> k \<longrightarrow> roi_id (rois s ! k') \<noteq> roiId"
  shows "handleMouseMove c e s =
     Inr (s\<lparr>rois := (rois s)[k := dragged (rois s ! k) i (getMousePos c e)
        (calculateLongestDistance ((points (rois s ! k))[i := getMousePos c e]))]\<rparr>)"
proof -
  let ?xy = "getMousePos c e"
  let ?g = "\<lambda>r. if roi_id r = roiId
      then dragged r i ?xy (calculateLongestDistance ((points r)[i := ?xy])) else r"
  have each: "drag_roi roiId i ?xy r = Inr (?g r)" if "r \<in> set (rois s)" for r
  proof (cases "roi_id r = roiId")
    case True
    from that obtain k' where k': "k' < length (rois s)" "rois s ! k' = r"
      by (auto simp: in_set_conv_nth)
    with True assms(6) have "k' = k" by auto
    with k' assms(5) have "i < length (points r)" by simp
    with True show ?thesis by (simp add: drag_roi_in_range dragged_def)
  next
    case False
    then show ?thesis by (simp add: drag_roi_other)
  qed
  then have "map_result (drag_roi roiId i ?xy) (rois s) = Inr (map ?g (rois s))"
    by (rule map_result_Inr)
  moreover have "map ?g (rois s) = (rois s)[k := ?g (rois s ! k)]"
  proof (rule nth_equalityI)
    show "length (map ?g (rois s)) = length ((rois s)[k := ?g (rois s ! k)])" by simp
    show "map ?g (rois s) ! j = (rois s)[k := ?g (rois s ! k)] ! j"
      if "j < length (map ?g (rois s))" for j
      using that assms(6) by (cases "j = k") simp_all
  qed
  ultimately show ?thesis using assms(1,2,4) by (simp add: handleMouseMove_def)
qed

text \<open>An ROI whose id the event does not target stays in the store as it is.\<close>

lemma rois_handleMouseDown: "rois (handleMouseDown c e s) = rois s"
  by (simp add: handleMouseDown_def Let_def split: option.splits)

lemma map_result_keeps_other:
  "map_result (drag_roi roiId i xy) rs = Inr rs' \<Longrightarrow> r \<in> set rs \<Longrightarrow> roi_id r \<noteq> roiId \<Longrightarrow>
   r \<in> set rs'"
proof (induction rs arbitrary: rs')
  case Nil
  then show ?case by simp
next
  case (Cons a rs)
  from Cons.prems(1) obtain a' rs'' where
    a': "drag_roi roiId i xy a = Inr a'" and
    rs'': "map_result (drag_roi roiId i xy) rs = Inr rs''" and
    eq: "rs' = a' # rs''"
    by (auto split: sum.splits)
  show ?case
  proof (cases "r = a")
    case True
    with Cons.prems(3) a' have "a' = r" by (simp add: drag_roi_other)
    with eq show ?thesis by simp
  next
    case False
    with Cons.prems(2) have "r \<in> set rs" by simp
    from Cons.IH [OF rs'' this Cons.prems(3)] eq show ?thesis by simp
  qed
qed

lemma handleMouseMove_keeps:
  assumes "r \<in> set (rois s)" "\<not> touches (roi_id r) (MouseMove c e) s"
    "handleMouseMove c e s = Inr t"
  shows "r \<in> set (rois t)"
proof (cases "isPanning s")
  case True
  with assms(1,3) show ?thesis by (auto simp: handleMouseMove_def)
next
  case False
  show ?thesis
  proof (cases "dragState s")
    case None
    with False assms(1,3) show ?thesis
      by (auto simp: handleMouseMove_def Let_def split: if_splits list.splits)
  next
    case (Some d)
    obtain roiId i where d: "d = (roiId, i)" by (cases d)
    from assms(2) Some d False have ne: "roi_id r \<noteq> roiId" by auto
    from assms(3) Some d False obtain rs where
      m: "map_result (drag_roi roiId i (getMousePos c e)) (rois s) = Inr rs"
      and t: "t = s\<lparr>rois := rs\<rparr>"
      by (auto simp: handleMouseMove_def split: sum.splits)
    from map_result_keeps_other [OF m assms(1) ne] t show ?thesis by simp
  qed
qed

lemma step_keeps:
  assumes "r \<in> set (rois s)" "\<not> touches (roi_id r) ev s" "step ev s = Inr t"
  shows "r \<in> set (rois t)"
proof (cases ev)
  case (MouseMove c e)
  with assms show ?thesis by (auto intro: handleMouseMove_keeps)
next
  case (MouseUp idDraw huDraw)
  with assms show ?thesis by (auto simp: handleMouseUp_def split: if_splits)
next
  case (DeleteROI j)
  with assms show ?thesis by (auto simp: deleteROI_def)
qed (use assms in \<open>auto simp: rois_handleMouseDown zoomOut_def zoomIn_def resetView_def\<close>)

lemma run_keeps:
  "r \<in> set (rois s) \<Longrightarrow> never_touched (roi_id r) evs s \<Longrightarrow> run evs s = Inr t \<Longrightarrow>
   r \<in> set (rois t)"
proof (induction evs arbitrary: s)
  case Nil
  then show ?case by simp
next
  case (Cons ev evs)
  from Cons.prems(3) obtain s' where s': "step ev s = Inr s'" and r: "run evs s' = Inr t"
    by (auto split: sum.splits)
  from Cons.prems(2) s' have nt: "\<not> touches (roi_id r) ev s"
    and nt': "never_touched (roi_id r) evs s'"
    by simp_all
  from step_keeps [OF Cons.prems(1) nt s'] have "r \<in> set (rois s')" .
  from Cons.IH [OF this nt' r] show ?case .
qed

subsection \<open>The sample session\<close>

lemma pointer_at_fields:
  "clientX (pointer_at d) = fst d" "clientY (pointer_at d) = snd d"
  "button (pointer_at d) = 0" "shiftKey (pointer_at d) = False"
  by (simp_all add: pointer_at_def)

lemma getMousePos_grab: "getMousePos (Some box) (pointer_at (25, 0)) = (Num 25, Num 0)"
  by (simp add: getMousePos_def box_def pointer_at_def jsub_def jmul_def)

lemma getMousePos_drop: "getMousePos (Some box) (pointer_at (0, 100)) = (Num 0, Num 100)"
  by (simp add: getMousePos_def box_def pointer_at_def jsub_def jmul_def)

lemma grab_lesion_a:
  "handleMouseDown (Some box) (pointer_at (25, 0)) (initial (lesion_a # rs)) =
     (initial (lesion_a # rs))\<lparr>dragState := Some (''a'', Suc 0)\<rparr>"
  by (simp add: handleMouseDown_def getMousePos_grab initial_def lesion_a_def proposal_def
      pointer_at_fields hit_points.simps jlt_def jsub_def Let_def)

lemma length_lesion_a_dragged:
  "calculateLongestDistance [(Num 0, Num 0), (Num 0, Num 100)] = Num 350"
  by (simp add: longest_two pairDistSq_def jsub_def jmul_def Let_def)

lemma length_lesion_a2_dragged:
  "calculateLongestDistance [(Num 60, Num 20), (Num 0, Num 100)] = Num 350"
  by (simp add: longest_two pairDistSq_def jsub_def jmul_def Let_def)

lemma move_demo:
  "handleMouseMove (Some box) (pointer_at (0, 100))
     ((initial [lesion_a, lesion_b])\<lparr>dragState := Some (''a'', Suc 0)\<rparr>) =
   Inr ((initial [lesion_a, lesion_b])
     \<lparr>dragState := Some (''a'', Suc 0),
      rois := [dragged lesion_a (Suc 0) (Num 0, Num 100) (Num 350), lesion_b]\<rparr>)"
  by (simp add: handleMouseMove_def getMousePos_drop initial_def drag_roi_def assign_index_def
      lesion_a_def lesion_b_def proposal_def dragged_def length_lesion_a_dragged)

lemma release_drag:
  "handleMouseUp idDraw huDraw ((initial rs)\<lparr>dragState := Some d, rois := rs'\<rparr>) = initial rs'"
  by (simp add: handleMouseUp_def initial_def)

lemma zoomIn_initial: "zoomIn (initial rs) = (initial rs)\<lparr>zoom := Num 1.5\<rparr>"
  by (simp add: zoomIn_def initial_def jmin_def)

lemma delete_dragged_lesion_a:
  "deleteROI ''a'' ((initial [dragged lesion_a i xy len, lesion_b])\<lparr>zoom := z\<rparr>) =
     (initial [lesion_b])\<lparr>zoom := z\<rparr>"
  by (simp add: deleteROI_def initial_def dragged_def lesion_a_def lesion_b_def proposal_def)

lemma demo_run:
  "run demo_events (initial [lesion_a, lesion_b]) = Inr ((initial [lesion_b])\<lparr>zoom := Num 1.5\<rparr>)"
  by (simp add: demo_events_def grab_lesion_a move_demo release_drag zoomIn_initial
      delete_dragged_lesion_a)

lemma demo_never_touched: "never_touched ''b'' demo_events (initial [lesion_a, lesion_b])"
  by (simp add: demo_events_def grab_lesion_a move_demo release_drag zoomIn_initial)

subsection \<open>Claim C5\<close>

text \<open>
  C5, as stated, fails when two ROIs carry the same id, which nothing in the code
  excludes: the drag state names the dragged ROI by its id, and the move rewrites every
  ROI of that id. With the proposals \<open>lesion_a\<close> and \<open>lesion_a2\<close>, both of id \<open>a\<close>, the
  pointer grabs the vertex \<open>(25, 0)\<close> of \<open>lesion_a\<close>; the move to \<open>(0, 100)\<close> then also
  replaces the vertex \<open>(75, 75)\<close> of \<open>lesion_a2\<close>, which no pointer ever touched, and sets
  its \<open>isConfirmed\<close> flag.
\<close>

theorem drag_rewrites_twin:
  "handleMouseDown (Some box) (pointer_at (25, 0)) (initial [lesion_a, lesion_a2]) =
     (initial [lesion_a, lesion_a2])\<lparr>dragState := Some (''a'', 1)\<rparr> \<and>
   handleMouseMove (Some box) (pointer_at (0, 100))
     ((initial [lesion_a, lesion_a2])\<lparr>dragState := Some (''a'', 1)\<rparr>) =
     Inr ((initial [lesion_a, lesion_a2])
       \<lparr>dragState := Some (''a'', 1),
        rois := [dragged lesion_a 1 (Num 0, Num 100) (Num 350),
                 dragged lesion_a2 1 (Num 0, Num 100) (Num 350)]\<rparr>) \<and>
   points lesion_a2 = [(Num 60, Num 20), (Num 75, Num 75)] \<and>
   \<not> isConfirmed lesion_a2 \<and>
   points (dragged lesion_a2 1 (Num 0, Num 100) (Num 350)) = [(Num 60, Num 20), (Num 0, Num 100)] \<and>
   isConfirmed (dragged lesion_a2 1 (Num 0, Num 100) (Num 350))"
proof -
  have "handleMouseMove (Some box) (pointer_at (0, 100))
     ((initial [lesion_a, lesion_a2])\<lparr>dragState := Some (''a'', 1)\<rparr>) =
     Inr ((initial [lesion_a, lesion_a2])
       \<lparr>dragState := Some (''a'', 1),
        rois := [dragged lesion_a 1 (Num 0, Num 100) (Num 350),
                 dragged lesion_a2 1 (Num 0, Num 100) (Num 350)]\<rparr>)"
    by (simp add: handleMouseMove_def getMousePos_drop initial_def drag_roi_def
        assign_index_def lesion_a_def lesion_a2_def proposal_def dragged_def
        length_lesion_a_dragged length_lesion_a2_dragged Let_def)
  then show ?thesis
    by (simp add: grab_lesion_a) (simp add: lesion_a2_def proposal_def dragged_def)
qed

text \<open>
  When the other ROI of the same id has fewer vertices than the dragged index, the move
  throws instead: vertex 2 of \<open>lesion_c\<close> is dragged, and \<open>lesion_c1\<close> has one vertex.
\<close>

lemma drag_throws_on_short_twin:
  "handleMouseMove (Some box) (pointer_at (0, 100))
     ((initial [lesion_c, lesion_c1])\<lparr>dragState := Some (''c'', 2)\<rparr>) = Inl TypeError"
  by (simp add: handleMouseMove_def initial_def drag_roi_def assign_index_def lesion_c_def
      lesion_c1_def proposal_def)

text \<open>
  C5, amended: every pointer-move while dragging a vertex of an existing ROI whose id no
  other ROI of the store carries replaces exactly the indexed point of that ROI with the
  newly transformed location, sets that ROI's \<open>isConfirmed\<close> flag to true, recomputes
  that ROI's length measurement from the new point list, and changes nothing else; and
  an ROI with \<open>isConfirmed = false\<close> stays in the store as it is, the flag still false,
  through every run of events in which no vertex drag targets its id and its id is not
  deleted.
\<close>

theorem drag_moves_one_vertex:
  "(\<not> isPanning s \<and> dragState s = Some (roiId, i) \<and> k < length (rois s) \<and>
    roi_id (rois s ! k) = roiId \<and> i < length (points (rois s ! k)) \<and>
    (\<forall>k'<length (rois s). k' \<noteq> k \<longrightarrow> roi_id (rois s ! k') \<noteq> roiId) \<longrightarrow>
    (\<exists>r'. handleMouseMove c e s = Inr (s\<lparr>rois := (rois s)[k := r']\<rparr>) \<and>
       points r' = (points (rois s ! k))[i := getMousePos c e] \<and>
       isConfirmed r' \<and>
       roi_length r' = Some (calculateLongestDistance (points r')) \<and>
       roi_id r' = roi_id (rois s ! k) \<and>
       roi_type r' = roi_type (rois s ! k) \<and>
       label r' = label (rois s ! k))) \<and>
   (r \<in> set (rois s) \<and> \<not> isConfirmed r \<and> never_touched (roi_id r) evs s \<and>
    run evs s = Inr t \<longrightarrow>
    r \<in> set (rois t) \<and> \<not> isConfirmed r)"
proof (intro conjI impI)
  assume a: "\<not> isPanning s \<and> dragState s = Some (roiId, i) \<and> k < length (rois s) \<and>
    roi_id (rois s ! k) = roiId \<and> i < length (points (rois s ! k)) \<and>
    (\<forall>k'<length (rois s). k' \<noteq> k \<longrightarrow> roi_id (rois s ! k') \<noteq> roiId)"
  let ?r' = "dragged (rois s ! k) i (getMousePos c e)
      (calculateLongestDistance ((points (rois s ! k))[i := getMousePos c e]))"
  from a have a1: "\<not> isPanning s" and a2: "dragState s = Some (roiId, i)"
    and a3: "k < length (rois s)" and a4: "roi_id (rois s ! k) = roiId"
    and a5: "i < length (points (rois s ! k))"
    and a6: "\<forall>k'<length (rois s). k' \<noteq> k \<longrightarrow> roi_id (rois s ! k') \<noteq> roiId"
    by blast+
  have "handleMouseMove c e s = Inr (s\<lparr>rois := (rois s)[k := ?r']\<rparr>)"
    by (rule drag_move_unique [OF a1 a2 a3 a4 a5 a6])
  then show "\<exists>r'. handleMouseMove c e s = Inr (s\<lparr>rois := (rois s)[k := r']\<rparr>) \<and>
       points r' = (points (rois s ! k))[i := getMousePos c e] \<and>
       isConfirmed r' \<and>
       roi_length r' = Some (calculateLongestDistance (points r')) \<and>
       roi_id r' = roi_id (rois s ! k) \<and>
       roi_type r' = roi_type (rois s ! k) \<and>
       label r' = label (rois s ! k)"
    by (intro exI [of _ ?r']) (simp add: dragged_def roi_length_with_length)
next
  assume b: "r \<in> set (rois s) \<and> \<not> isConfirmed r \<and> never_touched (roi_id r) evs s \<and>
    run evs s = Inr t"
  then show "r \<in> set (rois t)" by (auto intro: run_keeps)
  from b show "\<not> isConfirmed r" by simp
qed

text \<open>
  The sample session: with vertex 1 of \<open>lesion_a\<close> grabbed, the move to \<open>(0, 100)\<close> puts the
  vertex there, confirms the ROI and measures \<open>350\<close>, the floor of \<open>100 \<times> 3.5\<close>, and
  leaves \<open>lesion_b\<close> as it is; and \<open>lesion_b\<close>, never targeted in the session, ends it in
  the store, unconfirmed.
\<close>

theorem drag_moves_one_vertex_witness:
  "(\<exists>r'. handleMouseMove (Some box) (pointer_at (0, 100))
            ((initial [lesion_a, lesion_b])\<lparr>dragState := Some (''a'', 1)\<rparr>) =
          Inr ((initial [lesion_a, lesion_b])\<lparr>dragState := Some (''a'', 1),
            rois := [r', lesion_b]\<rparr>) \<and>
        points r' = [(Num 0, Num 0), (Num 0, Num 100)] \<and> isConfirmed r' \<and>
        roi_length r' = Some (Num 350)) \<and>
   run demo_events (initial [lesion_a, lesion_b]) = Inr ((initial [lesion_b])\<lparr>zoom := Num 1.5\<rparr>) \<and>
   lesion_b \<in> set (rois ((initial [lesion_b])\<lparr>zoom := Num 1.5\<rparr>)) \<and>
   \<not> isConfirmed lesion_b"
proof -
  let ?s = "(initial [lesion_a, lesion_b])\<lparr>dragState := Some (''a'', 1)\<rparr>"
  have h: "\<not> isPanning ?s \<and> dragState ?s = Some (''a'', 1) \<and> 0 < length (rois ?s) \<and>
      roi_id (rois ?s ! 0) = ''a'' \<and> 1 < length (points (rois ?s ! 0)) \<and>
      (\<forall>k'<length (rois ?s). k' \<noteq> 0 \<longrightarrow> roi_id (rois ?s ! k') \<noteq> ''a'')"
    by (auto simp: initial_def lesion_a_def lesion_b_def proposal_def less_Suc_eq)
  from h drag_moves_one_vertex [where s = ?s and roiId = "''a''" and i = 1 and k = 0
      and c = "Some box" and e = "pointer_at (0, 100)"]
  obtain r' where mv: "handleMouseMove (Some box) (pointer_at (0, 100)) ?s =
        Inr (?s\<lparr>rois := (rois ?s)[0 := r']\<rparr>)"
    and pts: "points r' = (points (rois ?s ! 0))[1 := getMousePos (Some box) (pointer_at (0, 100))]"
    and conf: "isConfirmed r'"
    and len: "roi_length r' = Some (calculateLongestDistance (points r'))"
    by blast
  have pts': "points r' = [(Num 0, Num 0), (Num 0, Num 100)]"
    using pts by (simp add: initial_def lesion_a_def proposal_def getMousePos_drop)
  have len': "roi_length r' = Some (Num 350)"
    using len by (simp add: pts' length_lesion_a_dragged)
  have mv': "handleMouseMove (Some box) (pointer_at (0, 100)) ?s =
      Inr (?s\<lparr>rois := [r', lesion_b]\<rparr>)"
    using mv by (simp add: initial_def)
  have first: "\<exists>r'. handleMouseMove (Some box) (pointer_at (0, 100)) ?s =
          Inr ((initial [lesion_a, lesion_b])\<lparr>dragState := Some (''a'', 1),
            rois := [r', lesion_b]\<rparr>) \<and>
        points r' = [(Num 0, Num 0), (Num 0, Num 100)] \<and> isConfirmed r' \<and>
        roi_length r' = Some (Num 350)"
    using mv' pts' conf len' by blast
  have b: "roi_id lesion_b = ''b''" "\<not> isConfirmed lesion_b"
    "lesion_b \<in> set (rois (initial [lesion_a, lesion_b]))"
    by (simp_all add: lesion_b_def proposal_def initial_def)
  have second: "lesion_b \<in> set (rois ((initial [lesion_b])\<lparr>zoom := Num 1.5\<rparr>))"
    using b demo_never_touched demo_run
      drag_moves_one_vertex [where r = lesion_b and s = "initial [lesion_a, lesion_b]"
        and evs = demo_events and t = "(initial [lesion_b])\<lparr>zoom := Num 1.5\<rparr>"]
    by simp
  show ?thesis using first second b(2) demo_run by simp
qed

section \<open>The annotation store and the total burden\<close>

subsection \<open>Claim C9\<close>

text \<open>
  C9: deleting an id that is not in the store leaves the whole state unchanged, and
  deleting the same id twice gives the state the first deletion gave.
\<close>

theorem delete_idempotent:
  "(i \<notin> roi_id ` set (rois s) \<longrightarrow> deleteROI i s = s) \<and>
   deleteROI i (deleteROI i s) = deleteROI i s"
proof -
  have "i \<notin> roi_id ` set (rois s) \<Longrightarrow> filter (\<lambda>r. roi_id r \<noteq> i) (rois s) = rois s"
    by (rule filter_True) auto
  then show ?thesis by (auto simp: deleteROI_def)
qed

text \<open>An absent id, and a present id deleted once and twice.\<close>

theorem delete_idempotent_witness:
  "deleteROI ''zz'' (initial [measured ''a'' 10, measured ''b'' 15]) = initial [measured ''a'' 10, measured ''b'' 15] \<and>
   rois (deleteROI ''a'' (initial [measured ''a'' 10, measured ''b'' 15])) = [measured ''b'' 15] \<and>
   deleteROI ''a'' (deleteROI ''a'' (initial [measured ''a'' 10, measured ''b'' 15])) =
     deleteROI ''a'' (initial [measured ''a'' 10, measured ''b'' 15])"
proof -
  have "''zz'' \<notin> roi_id ` set (rois (initial [measured ''a'' 10, measured ''b'' 15]))"
    by (simp add: initial_def measured_def)
  moreover have "rois (deleteROI ''a'' (initial [measured ''a'' 10, measured ''b'' 15])) = [measured ''b'' 15]"
    by (simp add: deleteROI_def initial_def measured_def)
  ultimately show ?thesis
    using delete_idempotent [of "''zz''" "initial [measured ''a'' 10, measured ''b'' 15]"]
      delete_idempotent [of "''a''" "initial [measured ''a'' 10, measured ''b'' 15]"]
    by simp
qed

subsection \<open>The total burden\<close>






text \<open>
  Large lengths overflow: two ROIs of length \<open>2\<^sup>1\<^sup>0\<^sup>2\<^sup>3\<close> have the total burden
  \<^verbatim>\<open>Infinity\<close>.
\<close>

lemma burden_overflows:
  "totalTumorBurden [measured ''a'' (2 ^ 1023), measured ''b'' (2 ^ 1023)] = Infinity"
proof -
  define h :: real where "h = 2 ^ 1023"
  have "\<bar>h\<bar> < overflow_threshold"
    unfolding h_def overflow_threshold_def by (simp add: power_strict_increasing)
  moreover have "h / ulp h = of_int (2 ^ 52)"
  proof -
    have "2 powr real_of_int 1023 \<le> \<bar>h\<bar>" "\<bar>h\<bar> < 2 powr real_of_int (1023 + 1)"
      unfolding h_def by (simp_all add: powr_realpow flip: powr_numeral)
    from binade_bounds [OF _ this] have "binade h = 1023" by (simp add: h_def)
    then have "ulp h = 2 powr 971" by (simp add: ulp_def)
    also have "\<dots> = 2 ^ 971" by (simp add: powr_realpow flip: powr_numeral)
    finally have "h / ulp h = 2 ^ 1023 / 2 ^ 971" by (simp add: h_def)
    also have "\<dots> = (2::real) ^ (1023 - 971)" by (subst power_diff) simp_all
    finally show ?thesis by simp
  qed
  ultimately have 1: "rnd h = Num h" by (intro rnd_exactI [where n = "2 ^ 52"]) simp_all
  have "overflow_threshold \<le> 2 * h" by (simp add: h_def overflow_threshold_def)
  then have 2: "rnd (2 * h) = Infinity" by (rule rnd_overflow)
  have "totalTumorBurden [measured ''a'' h, measured ''b'' h] = Infinity"
    by (simp add: totalTumorBurden_def measured_def roi_length_def 1 2)
  then show ?thesis by (simp only: h_def)
qed

subsection \<open>Claim C8\<close>



end
